theory Spec2Isabelle
  imports Main "HOL-Library.Multiset"
begin

section \<open>Values, exceptions and results\<close>

text \<open>
  A thrown JavaScript value is either an instance of the host realm's \<open>Error\<close>
  (with its \<open>message\<close>) or anything else; \<open>NonError\<close> carries the text that
  \<open>String(value)\<close> gives. An \<open>Error\<close> object made in another realm (a sandbox
  iframe) is not an instance of the host's \<open>Error\<close> and is a \<open>NonError\<close> here.
\<close>

datatype js_error = Error string | NonError string

text \<open>
  Calling a function returns a value, throws, or never comes back (the module code
  of a source file is arbitrary JavaScript and may loop).
\<close>

datatype 'a outcome = Returns 'a | Throws js_error | Diverges

datatype jsval =
    JUndefined
  | JNull
  | JBool bool
  | JNum int
  | JStr string
  | JFun string "(string \<times> jsval) list"
  | JObj "(string \<times> jsval) list"

fun typeof :: "jsval \<Rightarrow> string" where
  "typeof JUndefined = ''undefined''"
| "typeof JNull = ''object''"
| "typeof (JBool b) = ''boolean''"
| "typeof (JNum n) = ''number''"
| "typeof (JStr s) = ''string''"
| "typeof (JFun f ps) = ''function''"
| "typeof (JObj ps) = ''object''"

fun truthy :: "jsval \<Rightarrow> bool" where
  "truthy JUndefined = False"
| "truthy JNull = False"
| "truthy (JBool b) = b"
| "truthy (JNum n) = (n \<noteq> 0)"
| "truthy (JStr s) = (s \<noteq> [])"
| "truthy (JFun f ps) = True"
| "truthy (JObj ps) = True"

definition nullish :: "jsval \<Rightarrow> bool" where
  "nullish v = (v = JUndefined \<or> v = JNull)"

definition lookup_prop :: "(string \<times> jsval) list \<Rightarrow> string \<Rightarrow> jsval" where
  "lookup_prop ps k = (case map_of ps k of None \<Rightarrow> JUndefined | Some v \<Rightarrow> v)"

text \<open>
  Reading \<open>v.k\<close> of a value that is not nullish, for a name \<open>k\<close> that
  \<open>Object.prototype\<close> does not have (\<open>default\<close>, the hooks of React).
\<close>

fun get_prop :: "jsval \<Rightarrow> string \<Rightarrow> jsval" where
  "get_prop (JFun f ps) k = lookup_prop ps k"
| "get_prop (JObj ps) k = lookup_prop ps k"
| "get_prop v k = JUndefined"

text \<open>
  Reading \<open>obj[k]\<close> of a plain object for any key: a key the object does not
  have itself is looked up in \<open>Object.prototype\<close>, whose members are functions
  (and \<open>__proto__\<close>, an object).
\<close>

definition Object_prototype :: "string list" where
  "Object_prototype =
     [''constructor'', ''hasOwnProperty'', ''isPrototypeOf'', ''propertyIsEnumerable'',
      ''toLocaleString'', ''toString'', ''valueOf'', ''__defineGetter__'', ''__defineSetter__'',
      ''__lookupGetter__'', ''__lookupSetter__'', ''__proto__'']"

definition read_member :: "(string \<times> jsval) list \<Rightarrow> string \<Rightarrow> jsval" where
  "read_member ps k =
     (case map_of ps k of
        Some v \<Rightarrow> v
      | None \<Rightarrow> if k \<in> set Object_prototype
                then (if k = ''__proto__'' then JObj [] else JFun k [])
                else JUndefined)"

section \<open>Strings\<close>

definition starts_with :: "string \<Rightarrow> string \<Rightarrow> bool" where
  "starts_with pre s = (take (length pre) s = pre)"

definition ends_with :: "string \<Rightarrow> string \<Rightarrow> bool" where
  "ends_with suf s = (length suf \<le> length s \<and> drop (length s - length suf) s = suf)"

text \<open>\<open>s.includes(sub)\<close>\<close>

fun str_includes :: "string \<Rightarrow> string \<Rightarrow> bool" where
  "str_includes [] sub = (sub = [])"
| "str_includes (c # cs) sub = (starts_with sub (c # cs) \<or> str_includes cs sub)"

definition word_chars :: string where
  "word_chars = ''abcdefghijklmnopqrstuvwxyzABCDEFGHIJKLMNOPQRSTUVWXYZ0123456789_''"

text \<open>\<open>dep.replace(/[^a-zA-Z0-9_]/g, "_")\<close>\<close>

definition safeName :: "string \<Rightarrow> string" where
  "safeName dep = map (\<lambda>c. if c \<in> set word_chars then c else CHR ''_'') dep"

text \<open>\<open>filename.replace(/\.(js|jsx|ts|tsx)$/, "").replace(/^\.\//, "")\<close>\<close>

definition drop_extension :: "string \<Rightarrow> string" where
  "drop_extension f =
     (if ends_with ''.js'' f \<or> ends_with ''.ts'' f then take (length f - 3) f
      else if ends_with ''.jsx'' f \<or> ends_with ''.tsx'' f then take (length f - 4) f
      else f)"

definition normalizeFilename :: "string \<Rightarrow> string" where
  "normalizeFilename filename =
     (let f = drop_extension filename in if starts_with ''./'' f then drop 2 f else f)"

text \<open>A \<open>Set\<close> built by \<open>add\<close> in a loop keeps the order of first insertion.\<close>

definition Set_from :: "'a list \<Rightarrow> 'a list" where
  "Set_from xs = foldl (\<lambda>acc x. if x \<in> set acc then acc else acc @ [x]) [] xs"

text \<open>\<open>Map.prototype.set\<close> on a map kept in insertion order.\<close>

fun Map_set :: "'k \<Rightarrow> 'v \<Rightarrow> ('k \<times> 'v) list \<Rightarrow> ('k \<times> 'v) list" where
  "Map_set k v [] = [(k, v)]"
| "Map_set k v ((k', v') # m) = (if k' = k then (k, v) # m else (k', v') # Map_set k v m)"

section \<open>Source files and syntax trees\<close>

record CodeFile =
  name :: string
  content :: string
  isEntry :: bool

record ExportInfo =
  hasDefaultExport :: bool
  namedExports :: "string set"
  exportedName :: "string option"

text \<open>
  The import declarations of \<open>@babel/types\<close>: a default, a named (local name and
  imported name) or a namespace specifier.
\<close>

datatype specifier =
    ImportDefaultSpecifier string
  | ImportSpecifier string string
  | ImportNamespaceSpecifier string

fun local_name :: "specifier \<Rightarrow> string" where
  "local_name (ImportDefaultSpecifier l) = l"
| "local_name (ImportSpecifier l imported) = l"
| "local_name (ImportNamespaceSpecifier l) = l"

datatype expr =
    Identifier string
  | MemberExpression expr string
  | CallGetModule string

text \<open>
  The statements of a program, as far as the plugin tells them apart:
  \<^item> an import declaration, with its source and its specifiers;
  \<^item> a named export declaration, with the text of its declaration if it has one
    (\<open>export async function f() {}\<close>) and with its specifiers (\<open>export { a, b }\<close>);
    \<open>ExportNamedDeclaration None []\<close> is \<open>export {};\<close>
  \<^item> a default export declaration, with the text of its declaration when that is
    a function declaration with a name;
  \<^item> a \<open>const\<close> declaration with one declarator, which the plugin makes;
  \<^item> any other statement, as opaque text.
\<close>

datatype stmt =
    ImportDeclaration string "specifier list"
  | ExportNamedDeclaration "string option" "string list"
  | ExportDefaultDeclaration "string option"
  | VariableDeclaration string expr
  | Other string

text \<open>
  The regular expressions of the source and Babel run on the platform; what they
  compute on a text is a field of this record:
  \<^item> \<open>removeDefaultExport\<close>: the function of that name (modified input, exported name);
  \<^item> \<open>scanNamedExports\<close>: the names found by \<open>exportRegex\<close> and \<open>exportBraceRegex\<close>,
    in the order found;
  \<^item> \<open>scanDeclExports\<close>: the names found by \<open>exportConstRegex\<close>;
  \<^item> \<open>stripExports\<close>: the chain of \<open>replace\<close> calls that gives \<open>processedInput\<close>;
  \<^item> \<open>babel_parse\<close>: the parser, which throws on a text it rejects;
  \<^item> \<open>isImportTypeOnly\<close>: for a text and the local name of an import binding of it,
    whether the TypeScript preset finds the binding imported as a type or
    referenced nowhere as a value (the function of that name in the preset);
  \<^item> \<open>preset_error\<close>: the error, if any, that a visitor of the presets throws on a
    statement (a JSX namespace tag, \<open>import x = require(...)\<close>);
  \<^item> \<open>babel_label\<close>: what Babel puts before the message of an error thrown while
    it traverses the program (the call passes no file name, so this does not
    depend on the file);
  \<^item> \<open>scanImports\<close>: the import paths found by \<open>importRegex\<close>.
\<close>

record platform =
  removeDefaultExport :: "string \<Rightarrow> string \<times> string option"
  scanNamedExports :: "string \<Rightarrow> string list"
  scanDeclExports :: "string \<Rightarrow> string list"
  stripExports :: "string \<Rightarrow> string"
  babel_parse :: "string \<Rightarrow> js_error + stmt list"
  isImportTypeOnly :: "string \<Rightarrow> string \<Rightarrow> bool"
  preset_error :: "string \<Rightarrow> js_error option"
  babel_label :: string
  scanImports :: "string \<Rightarrow> string list"

section \<open>The TypeScript preset\<close>

text \<open>
  The call of \<open>transform\<close> passes the presets \<open>typescript\<close> and \<open>react\<close>. On entering
  the program, before any import declaration is visited, the TypeScript preset
  removes every import specifier whose binding is type-only, and the whole
  declaration when none of its specifiers is left. An import without specifiers
  (a side-effect import) stays.
\<close>

fun elide_imports :: "(string \<Rightarrow> bool) \<Rightarrow> stmt list \<Rightarrow> stmt list" where
  "elide_imports typeOnly [] = []"
| "elide_imports typeOnly (ImportDeclaration source specifiers # rest) =
     (if specifiers = [] then ImportDeclaration source [] # elide_imports typeOnly rest
      else case filter (\<lambda>s. \<not> typeOnly (local_name s)) specifiers of
             [] \<Rightarrow> elide_imports typeOnly rest
           | kept \<Rightarrow> ImportDeclaration source kept # elide_imports typeOnly rest)"
| "elide_imports typeOnly (s # rest) = s # elide_imports typeOnly rest"

text \<open>
  The flag \<open>NEEDS_EXPLICIT_ESM\<close> of the preset when it leaves the program: it is set
  at the first import declaration and cleared by a side-effect import, by an
  import specifier that is kept and by \<open>export {};\<close> (the other export
  declarations are replaced or removed by the plugin before the preset visits
  them). When the flag is still set, the preset appends \<open>export {};\<close> to the program.
\<close>

fun clears_flag :: "(string \<Rightarrow> bool) \<Rightarrow> stmt \<Rightarrow> bool" where
  "clears_flag typeOnly (ImportDeclaration source specifiers) =
     (specifiers = [] \<or> filter (\<lambda>s. \<not> typeOnly (local_name s)) specifiers \<noteq> [])"
| "clears_flag typeOnly (ExportNamedDeclaration declaration specifiers) =
     (declaration = None \<and> specifiers = [])"
| "clears_flag typeOnly s = False"

fun is_import :: "stmt \<Rightarrow> bool" where
  "is_import (ImportDeclaration source specifiers) = True"
| "is_import s = False"

definition NEEDS_EXPLICIT_ESM :: "(string \<Rightarrow> bool) \<Rightarrow> stmt list \<Rightarrow> bool" where
  "NEEDS_EXPLICIT_ESM typeOnly program =
     (list_ex is_import program \<and> \<not> list_ex (clears_flag typeOnly) program)"

section \<open>The import transformer plugin\<close>

definition module_not_found :: "string \<Rightarrow> string" where
  "module_not_found source =
     ''Module not found: '' @ source @
     ''. To enable automatic CDN resolution, set autoResolvePackage to true.''"

definition cdn_warning :: "string \<Rightarrow> string" where
  "cdn_warning source =
     ''Module '' @ source @ '' not found in dependencies. Will attempt to resolve from CDN.''"

definition export_warning :: "string \<Rightarrow> string \<Rightarrow> string" where
  "export_warning importedName source =
     ''Warning: Importing '' @ [CHR 0x27] @ importedName @ [CHR 0x27] @ '' from '' @
     [CHR 0x27] @ source @ [CHR 0x27] @ '' but it may not be exported''"

text \<open>\<open>normalizedModulePaths\<close>: normalized path to file name, later files overwrite.\<close>

definition normalizedModulePaths :: "CodeFile list \<Rightarrow> (string \<rightharpoonup> string)" where
  "normalizedModulePaths localModules =
     foldl (\<lambda>m f. m(normalizeFilename (name f) \<mapsto> name f)) Map.empty localModules"

fun react_node :: "specifier \<Rightarrow> stmt list" where
  "react_node (ImportSpecifier local imported) =
     [VariableDeclaration local (MemberExpression (Identifier ''React'') imported)]"
| "react_node s = []"

fun local_node :: "string \<Rightarrow> specifier \<Rightarrow> stmt list" where
  "local_node normalizedSource (ImportDefaultSpecifier local) =
     [VariableDeclaration local (MemberExpression (CallGetModule normalizedSource) ''default'')]"
| "local_node normalizedSource (ImportSpecifier local imported) =
     [VariableDeclaration local (MemberExpression (CallGetModule normalizedSource) imported)]"
| "local_node normalizedSource (ImportNamespaceSpecifier local) = []"

fun local_warning :: "ExportInfo option \<Rightarrow> string \<Rightarrow> specifier \<Rightarrow> string list" where
  "local_warning info source (ImportSpecifier local imported) =
     (case info of
        None \<Rightarrow> [export_warning imported source]
      | Some i \<Rightarrow> if imported \<in> namedExports i then [] else [export_warning imported source])"
| "local_warning info source s = []"

fun external_node :: "string \<Rightarrow> specifier \<Rightarrow> stmt list" where
  "external_node sourceVarName (ImportDefaultSpecifier local) =
     [VariableDeclaration local (Identifier sourceVarName)]"
| "external_node sourceVarName (ImportSpecifier local imported) =
     [VariableDeclaration local (MemberExpression (Identifier sourceVarName) imported)]"
| "external_node sourceVarName (ImportNamespaceSpecifier local) = []"

text \<open>
  The visitor of one import declaration. It gives the statements that replace the
  declaration, the (possibly extended) \<open>dependencyVarMap\<close> and the warnings logged,
  or throws.
\<close>

definition visit_import ::
  "string list \<Rightarrow> (string \<rightharpoonup> string) \<Rightarrow> (string \<rightharpoonup> string) \<Rightarrow> (string \<rightharpoonup> ExportInfo) \<Rightarrow> bool \<Rightarrow>
   string \<Rightarrow> specifier list \<Rightarrow> (stmt list \<times> (string \<rightharpoonup> string) \<times> string list) outcome" where
  "visit_import allowedDependencies dependencyVarMap paths exportInfo autoResolvePackage source specifiers =
     (if specifiers = [] then Returns ([ImportDeclaration source specifiers], dependencyVarMap, [])
      else if source = ''react'' then
        Returns (concat (map react_node specifiers), dependencyVarMap, [])
      else
        let normalizedSource = normalizeFilename source;
            isLocalModule = (paths normalizedSource \<noteq> None);
            isProvidedDependency = (source \<in> set allowedDependencies);
            isExternalDependency = (\<not> isLocalModule \<and> source \<noteq> ''react'')
        in
          if isExternalDependency \<and> \<not> isProvidedDependency \<and> \<not> autoResolvePackage then
            Throws (Error (module_not_found source))
          else
            let unresolved = (isExternalDependency \<and> \<not> isProvidedDependency);
                varMap = (if unresolved then dependencyVarMap(source \<mapsto> safeName source)
                          else dependencyVarMap);
                warned = (if unresolved then [cdn_warning source] else [])
            in
              if isLocalModule then
                let originalModuleName = (case paths normalizedSource of None \<Rightarrow> [] | Some n \<Rightarrow> n);
                    moduleExportInfo = exportInfo originalModuleName
                in Returns (concat (map (local_node normalizedSource) specifiers), varMap,
                            warned @ concat (map (local_warning moduleExportInfo source) specifiers))
              else
                let sourceVarName = (case varMap source of
                                       None \<Rightarrow> source
                                     | Some v \<Rightarrow> if v = [] then source else v)
                in Returns (concat (map (external_node sourceVarName) specifiers), varMap, warned))"

text \<open>
  A statement that stays in the program, or takes the place of an export
  declaration, is visited by the presets, which may throw on it.
\<close>

definition visit_declaration :: "platform \<Rightarrow> string \<Rightarrow> stmt list outcome" where
  "visit_declaration pf t =
     (case preset_error pf t of Some e \<Rightarrow> Throws e | None \<Rightarrow> Returns [Other t])"

text \<open>
  The visitors \<open>ExportNamedDeclaration\<close> and \<open>ExportDefaultDeclaration\<close> of the
  plugin: a named export with a declaration is replaced by the declaration, one
  with specifiers only is removed, \<open>export {};\<close> is left; a default export of a
  function declaration with a name is replaced by the declaration, any other
  default export is removed.
\<close>

fun visit_statement :: "platform \<Rightarrow> stmt \<Rightarrow> stmt list outcome" where
  "visit_statement pf (ExportNamedDeclaration declaration specifiers) =
     (case declaration of
        Some d \<Rightarrow> visit_declaration pf d
      | None \<Rightarrow> if specifiers \<noteq> [] then Returns []
                else Returns [ExportNamedDeclaration None []])"
| "visit_statement pf (ExportDefaultDeclaration declaration) =
     (case declaration of
        Some d \<Rightarrow> visit_declaration pf d
      | None \<Rightarrow> Returns [])"
| "visit_statement pf (Other t) = visit_declaration pf t"
| "visit_statement pf s = Returns [s]"

text \<open>Babel's traversal: the statements in order; a throwing visitor ends it.\<close>

fun traverse ::
  "platform \<Rightarrow> string list \<Rightarrow> (string \<rightharpoonup> string) \<Rightarrow> (string \<rightharpoonup> ExportInfo) \<Rightarrow> bool \<Rightarrow>
   stmt list \<Rightarrow> (string \<rightharpoonup> string) \<Rightarrow> (stmt list \<times> string list) outcome" where
  "traverse pf allowed paths exportInfo auto [] varMap = Returns ([], [])"
| "traverse pf allowed paths exportInfo auto (ImportDeclaration source specifiers # rest) varMap =
     (case visit_import allowed varMap paths exportInfo auto source specifiers of
        Throws e \<Rightarrow> Throws e
      | Diverges \<Rightarrow> Diverges
      | Returns (nodes, varMap', warned) \<Rightarrow>
          (case traverse pf allowed paths exportInfo auto rest varMap' of
             Throws e \<Rightarrow> Throws e
           | Diverges \<Rightarrow> Diverges
           | Returns (out, warned') \<Rightarrow> Returns (nodes @ out, warned @ warned')))"
| "traverse pf allowed paths exportInfo auto (s # rest) varMap =
     (case visit_statement pf s of
        Throws e \<Rightarrow> Throws e
      | Diverges \<Rightarrow> Diverges
      | Returns nodes \<Rightarrow>
          (case traverse pf allowed paths exportInfo auto rest varMap of
             Throws e \<Rightarrow> Throws e
           | Diverges \<Rightarrow> Diverges
           | Returns (out, warned') \<Rightarrow> Returns (nodes @ out, warned')))"

text \<open>
  \<open>transform(processedInput, {presets, plugins: [createImportTransformerPlugin(...)]})\<close>:
  parse, let the TypeScript preset remove the type-only imports, traverse with the
  plugin, and append \<open>export {};\<close> when the preset's flag asks for it. Babel labels
  the message of an error thrown during the traversal.
\<close>

definition relabel :: "string \<Rightarrow> js_error \<Rightarrow> js_error" where
  "relabel label e = (case e of Error m \<Rightarrow> Error (label @ m) | NonError s \<Rightarrow> NonError s)"

definition transform ::
  "platform \<Rightarrow> string list \<Rightarrow> (string \<rightharpoonup> string) \<Rightarrow> CodeFile list \<Rightarrow> (string \<rightharpoonup> ExportInfo) \<Rightarrow> bool \<Rightarrow>
   string \<Rightarrow> (stmt list \<times> string list) outcome" where
  "transform pf allowedDependencies dependencyVarMap localModules exportInfo autoResolvePackage input =
     (case babel_parse pf input of
        Inl e \<Rightarrow> Throws e
      | Inr program \<Rightarrow>
          (case traverse pf allowedDependencies (normalizedModulePaths localModules) exportInfo
                  autoResolvePackage (elide_imports (isImportTypeOnly pf input) program)
                  dependencyVarMap of
             Throws e \<Rightarrow> Throws (relabel (babel_label pf) e)
           | Diverges \<Rightarrow> Diverges
           | Returns (out, warned) \<Rightarrow>
               Returns (out @ (if NEEDS_EXPLICIT_ESM (isImportTypeOnly pf input) program
                               then [ExportNamedDeclaration None []] else []),
                        warned)))"

section \<open>transformMultipleFiles\<close>

record CompiledModule =
  m_code :: "stmt list"
  m_exportedName :: "string option"
  m_exportInfo :: "ExportInfo option"

text \<open>A dependency map, with its keys in the order of \<open>Object.keys\<close>.\<close>

type_synonym dependencies = "(string \<times> jsval) list"

text \<open>First pass, the body of the first \<open>files.forEach\<close>: the export information of one file.\<close>

definition file_exports :: "platform \<Rightarrow> CodeFile \<Rightarrow> ExportInfo" where
  "file_exports pf file =
     (let (modifiedInput, exported) = removeDefaultExport pf (content file)
      in \<lparr> hasDefaultExport = (exported \<noteq> None),
           namedExports = set (scanNamedExports pf modifiedInput),
           exportedName = exported \<rparr>)"

definition first_pass :: "platform \<Rightarrow> CodeFile list \<Rightarrow> (string \<rightharpoonup> ExportInfo)" where
  "first_pass pf files = foldl (\<lambda>m file. m(name file \<mapsto> file_exports pf file)) Map.empty files"

text \<open>
  Second pass, the body of the second \<open>files.forEach\<close>: the compiled module of one
  file and the warnings logged while its imports were rewritten.
\<close>

definition dependencyVarMap :: "dependencies \<Rightarrow> (string \<rightharpoonup> string)" where
  "dependencyVarMap deps = foldl (\<lambda>m dep. m(dep \<mapsto> safeName dep)) Map.empty (map fst deps)"

definition processedInput :: "platform \<Rightarrow> CodeFile \<Rightarrow> string" where
  "processedInput pf file = stripExports pf (fst (removeDefaultExport pf (content file)))"

definition transform_file ::
  "platform \<Rightarrow> CodeFile list \<Rightarrow> dependencies \<Rightarrow> (string \<rightharpoonup> ExportInfo) \<Rightarrow> bool \<Rightarrow> CodeFile \<Rightarrow>
   (CompiledModule \<times> string list) outcome" where
  "transform_file pf files deps exportInfo autoResolvePackage file =
     (let fileExportInfo = exportInfo (name file);
          exported = snd (removeDefaultExport pf (content file))
      in case transform pf (map fst deps) (dependencyVarMap deps) files exportInfo
                autoResolvePackage (processedInput pf file) of
           Throws e \<Rightarrow> Throws e
         | Diverges \<Rightarrow> Diverges
         | Returns (transpiledCode, warned) \<Rightarrow>
             Returns (\<lparr> m_code = transpiledCode, m_exportedName = exported,
                        m_exportInfo = fileExportInfo \<rparr>, warned))"

fun transform_all ::
  "platform \<Rightarrow> CodeFile list \<Rightarrow> dependencies \<Rightarrow> (string \<rightharpoonup> ExportInfo) \<Rightarrow> bool \<Rightarrow> CodeFile list \<Rightarrow>
   (string \<times> CompiledModule) list \<Rightarrow> (string \<times> CompiledModule) list outcome" where
  "transform_all pf files deps exportInfo auto [] moduleCache = Returns moduleCache"
| "transform_all pf files deps exportInfo auto (file # rest) moduleCache =
     (case transform_file pf files deps exportInfo auto file of
        Throws e \<Rightarrow> Throws e
      | Diverges \<Rightarrow> Diverges
      | Returns (m, warned) \<Rightarrow>
          transform_all pf files deps exportInfo auto rest (Map_set (name file) m moduleCache))"

text \<open>
  The generated factory, as the parts the template is filled with: the \<open>const\<close>
  declarations of the dependency variables (variable, dependency key), the module
  definitions in the order of their \<open>moduleDefinitions.set\<close> calls, and the name
  passed to \<open>getModule\<close> for the entry.
\<close>

record ModuleDefinition =
  normalizedName :: string
  body :: "stmt list"
  defaultSetup :: "string option"
  namedSetup :: "string list"
  hookSetup :: "string option"

record FactoryCode =
  dependencyVars :: "(string \<times> string) list"
  moduleDefinitions :: "ModuleDefinition list"
  entryModuleName :: string

definition module_definition ::
  "platform \<Rightarrow> CodeFile list \<Rightarrow> string \<times> CompiledModule \<Rightarrow> ModuleDefinition" where
  "module_definition pf files entry =
     (let nm = fst entry; module = snd entry;
          info = (case m_exportInfo module of
                    Some i \<Rightarrow> i
                  | None \<Rightarrow> \<lparr> hasDefaultExport = (m_exportedName module \<noteq> None),
                              namedExports = {},
                              exportedName = m_exportedName module \<rparr>);
          originalCode = (case find (\<lambda>f. name f = nm) files of
                            Some f \<Rightarrow> content f
                          | None \<Rightarrow> []);
          found = scanDeclExports pf originalCode;
          hookName = (if str_includes nm ''use'' \<and> found \<noteq> [] then Some (last found) else None)
      in \<lparr> normalizedName = normalizeFilename nm,
           body = m_code module,
           defaultSetup = (if hasDefaultExport info \<and> exportedName info \<noteq> Some []
                           then exportedName info else None),
           namedSetup = Set_from found,
           hookSetup = (case hookName of
                          None \<Rightarrow> None
                        | Some h \<Rightarrow> if h \<noteq> [] \<and> str_includes nm h then Some h else None) \<rparr>)"

text \<open>\<open>files.find((f) => f.isEntry) || files[0]\<close>; \<open>files[0]\<close> of no files is undefined.\<close>

definition entry_file :: "CodeFile list \<Rightarrow> CodeFile option" where
  "entry_file files =
     (case find isEntry files of
        Some f \<Rightarrow> Some f
      | None \<Rightarrow> (case files of [] \<Rightarrow> None | f # rest \<Rightarrow> Some f))"

definition transformMultipleFiles ::
  "platform \<Rightarrow> CodeFile list \<Rightarrow> dependencies \<Rightarrow> bool \<Rightarrow> FactoryCode outcome" where
  "transformMultipleFiles pf files deps autoResolvePackage =
     (let exportInfo = first_pass pf files
      in case transform_all pf files deps exportInfo autoResolvePackage files [] of
           Throws e \<Rightarrow> Throws e
         | Diverges \<Rightarrow> Diverges
         | Returns moduleCache \<Rightarrow>
             (case entry_file files of
                None \<Rightarrow> Throws (Error ''Cannot read properties of undefined (reading 'name')'')
              | Some entryFile \<Rightarrow>
                  (case map_of moduleCache (name entryFile) of
                     None \<Rightarrow> Throws (Error ''Entry module not found'')
                   | Some entryModule \<Rightarrow>
                       Returns \<lparr> dependencyVars = map (\<lambda>dep. (safeName dep, dep)) (map fst deps),
                                 moduleDefinitions = map (module_definition pf files) moduleCache,
                                 entryModuleName = normalizeFilename (name entryFile) \<rparr>)))"

section \<open>The generated factory at run time\<close>

text \<open>
  What running the body of a module definition does is the engine's business. A run
  ends with the value of \<open>module.exports\<close>, throws, loops, or calls \<open>getModule\<close> and
  goes on with what that call returned or threw.
\<close>

datatype step =
    Done jsval
  | Throw js_error
  | Loop
  | Require string "js_error + jsval \<Rightarrow> step"

text \<open>
  The JavaScript engine:
  \<^item> \<open>early_error\<close>: the syntax error, if any, that the function constructor finds in
    the text of a statement inside a function body, import and export
    declarations and redeclared names apart (these are modelled below);
  \<^item> \<open>run_module\<close>: the run of a module body, given the framework handle and the
    values of the dependency variables;
  \<^item> \<open>shadowed_run\<close>: the run of the generated function when one of its dependency
    constants hides a global that the generated text itself uses, as far as it
    is not modelled below;
  \<^item> \<open>stack_limit\<close>: how deep calls of \<open>getModule\<close> may nest before the engine
    throws its stack overflow error;
  \<^item> \<open>JSON_stringify\<close>: the text \<open>JSON.stringify\<close> gives.
\<close>

record engine =
  early_error :: "string \<Rightarrow> string option"
  run_module :: "ModuleDefinition \<Rightarrow> jsval \<Rightarrow> (string \<times> jsval) list \<Rightarrow> step"
  shadowed_run :: "FactoryCode \<Rightarrow> jsval \<Rightarrow> (string \<times> jsval) list \<Rightarrow> jsval outcome"
  stack_limit :: nat
  JSON_stringify :: "jsval \<Rightarrow> string"

type_synonym window = nat

subsection \<open>The function constructor\<close>

text \<open>The text of the statements that the template and the plugin make.\<close>

definition dependency_declaration :: "string \<times> string \<Rightarrow> string" where
  "dependency_declaration d =
     ''const '' @ fst d @ '' = dependencies['' @ [CHR 0x27] @ snd d @ [CHR 0x27] @ ''];''"

fun print_expr :: "expr \<Rightarrow> string" where
  "print_expr (Identifier x) = x"
| "print_expr (MemberExpression e p) = print_expr e @ ''.'' @ p"
| "print_expr (CallGetModule nm) = ''getModule('' @ [CHR 0x22] @ nm @ [CHR 0x22] @ '')''"

definition default_setup :: "string \<Rightarrow> string list" where
  "default_setup n =
     [''exports.default = '' @ n @ '';'',
      ''module.exports = Object.assign({}, module.exports, typeof '' @ n @
        '' === 'function' ? { default: '' @ n @ '' } : '' @ n @ '');'']"

definition named_setup :: "string \<Rightarrow> string" where
  "named_setup n =
     ''if (typeof '' @ n @ '' !== 'undefined') { exports.'' @ n @ '' = '' @ n @ ''; }''"

text \<open>\<open>exportsSetup\<close>, statement by statement.\<close>

definition exportsSetup :: "ModuleDefinition \<Rightarrow> string list" where
  "exportsSetup d =
     (case defaultSetup d of None \<Rightarrow> [] | Some n \<Rightarrow> default_setup n)
     @ map named_setup (namedSetup d)
     @ (case hookSetup d of None \<Rightarrow> [] | Some h \<Rightarrow> [named_setup h])"

definition redeclared_message :: "string \<Rightarrow> string" where
  "redeclared_message x =
     ''Identifier '' @ [CHR 0x27] @ x @ [CHR 0x27] @ '' has already been declared''"

text \<open>
  A function body may hold neither an import nor an export declaration. These
  are the messages of V8.
\<close>

definition unexpected_export :: string where
  "unexpected_export = ''Unexpected token '' @ [CHR 0x27] @ ''export'' @ [CHR 0x27]"

fun statement_error :: "engine \<Rightarrow> stmt \<Rightarrow> string option" where
  "statement_error en (ImportDeclaration source specifiers) =
     Some ''Cannot use import statement outside a module''"
| "statement_error en (ExportNamedDeclaration declaration specifiers) =
     Some unexpected_export"
| "statement_error en (ExportDefaultDeclaration declaration) =
     Some unexpected_export"
| "statement_error en (VariableDeclaration x e) =
     early_error en (''const '' @ x @ '' = '' @ print_expr e @ '';'')"
| "statement_error en (Other t) = early_error en t"

fun first_error :: "('a \<Rightarrow> string option) \<Rightarrow> 'a list \<Rightarrow> string option" where
  "first_error f [] = None"
| "first_error f (x # xs) = (case f x of Some msg \<Rightarrow> Some msg | None \<Rightarrow> first_error f xs)"

definition module_error :: "engine \<Rightarrow> ModuleDefinition \<Rightarrow> string option" where
  "module_error en d =
     (case first_error (statement_error en) (body d) of
        Some msg \<Rightarrow> Some msg
      | None \<Rightarrow> first_error (early_error en) (exportsSetup d))"

text \<open>
  The generated function declares in one scope, in the order of the text: its
  parameters, one \<open>const\<close> for each dependency, the two registries and, behind the
  module definitions, the function \<open>getModule\<close>. JavaScript rejects a function
  body that declares a \<open>const\<close> name twice, or a \<open>const\<close> with the name of a
  parameter or of a function declared beside it.
\<close>

fun first_redeclared :: "string list \<Rightarrow> string list \<Rightarrow> string option" where
  "first_redeclared seen [] = None"
| "first_redeclared seen (x # xs) =
     (if x \<in> set seen then Some x else first_redeclared (x # seen) xs)"

text \<open>
  The declarations of the dependency constants, in order: the first that is
  malformed or declares a name again.
\<close>

fun declaration_error :: "engine \<Rightarrow> string list \<Rightarrow> (string \<times> string) list \<Rightarrow> string option" where
  "declaration_error en seen [] = None"
| "declaration_error en seen (d # ds) =
     (case early_error en (dependency_declaration d) of
        Some msg \<Rightarrow> Some msg
      | None \<Rightarrow> if fst d \<in> set seen then Some (redeclared_message (fst d))
                else declaration_error en (fst d # seen) ds)"

text \<open>
  The first syntax error of the generated text, in the order of the text: the
  declarations of the dependency constants, the two registries, the module
  definitions, and the declaration of the function \<open>getModule\<close>.
\<close>

definition generated_error :: "engine \<Rightarrow> FactoryCode \<Rightarrow> string option" where
  "generated_error en fc =
     (case declaration_error en [''React'', ''dependencies''] (dependencyVars fc) of
        Some msg \<Rightarrow> Some msg
      | None \<Rightarrow>
          (case first_redeclared ([''React'', ''dependencies''] @ map fst (dependencyVars fc))
                  [''moduleCache'', ''moduleDefinitions''] of
             Some x \<Rightarrow> Some (redeclared_message x)
           | None \<Rightarrow>
               (case first_error (module_error en) (moduleDefinitions fc) of
                  Some msg \<Rightarrow> Some msg
                | None \<Rightarrow> if ''getModule'' \<in> set (map fst (dependencyVars fc))
                          then Some (redeclared_message ''getModule'') else None)))"

text \<open>
  A syntax error thrown by the host's \<open>Function\<close> is an \<open>Error\<close> of the host; one
  thrown by the \<open>Function\<close> of a sandbox window is an error object of that realm.
  The same holds for the errors that the engine throws while it runs the
  generated function.
\<close>

definition realm_error :: "string \<Rightarrow> window option \<Rightarrow> string \<Rightarrow> js_error" where
  "realm_error kind sandboxWindow msg =
     (case sandboxWindow of None \<Rightarrow> Error msg | Some w \<Rightarrow> NonError (kind @ '': '' @ msg))"

definition syntax_error :: "window option \<Rightarrow> string \<Rightarrow> js_error" where
  "syntax_error sandboxWindow msg =
     (case sandboxWindow of None \<Rightarrow> Error msg | Some w \<Rightarrow> NonError (''SyntaxError: '' @ msg))"

text \<open>\<open>new FunctionConstructor(transformedCode)()\<close>\<close>

definition FunctionConstructor :: "engine \<Rightarrow> window option \<Rightarrow> FactoryCode \<Rightarrow> FactoryCode outcome" where
  "FunctionConstructor en sandboxWindow fc =
     (case generated_error en fc of
        Some msg \<Rightarrow> Throws (syntax_error sandboxWindow msg)
      | None \<Rightarrow> Returns fc)"

subsection \<open>The run of the generated function\<close>

text \<open>The run of a module body, with \<open>getModule\<close> given as \<open>gm\<close>.\<close>

primrec exec_step ::
  "((string \<rightharpoonup> jsval) \<Rightarrow> string \<Rightarrow> jsval outcome \<times> (string \<rightharpoonup> jsval)) \<Rightarrow> step \<Rightarrow>
   (string \<rightharpoonup> jsval) \<Rightarrow> jsval outcome \<times> (string \<rightharpoonup> jsval)" where
  "exec_step gm (Done v) = (\<lambda>cache. (Returns v, cache))"
| "exec_step gm (Throw e) = (\<lambda>cache. (Throws e, cache))"
| "exec_step gm Loop = (\<lambda>cache. (Diverges, cache))"
| "exec_step gm (Require nm k) =
     (\<lambda>cache. case gm cache nm of
                 (Returns v, cache') \<Rightarrow> exec_step gm (k (Inr v)) cache'
               | (Throws e, cache') \<Rightarrow> exec_step gm (k (Inl e)) cache'
               | (Diverges, cache') \<Rightarrow> (Diverges, cache'))"

definition module_not_registered :: "string \<Rightarrow> string" where
  "module_not_registered nm = ''Module '' @ [CHR 0x22] @ nm @ [CHR 0x22] @ '' not found''"

definition invalid_exports :: "string \<Rightarrow> string" where
  "invalid_exports nm =
     ''Module '' @ [CHR 0x22] @ nm @ [CHR 0x22] @ '' did not return a valid exports object''"

text \<open>
  \<open>getModule\<close> of the generated text, with the run-time \<open>moduleCache\<close> passed along.
  The first argument counts the calls of \<open>getModule\<close> that may still nest.
\<close>

primrec getModule ::
  "nat \<Rightarrow> engine \<Rightarrow> (string \<rightharpoonup> ModuleDefinition) \<Rightarrow> jsval \<Rightarrow> (string \<times> jsval) list \<Rightarrow>
   (string \<rightharpoonup> jsval) \<Rightarrow> string \<Rightarrow> jsval outcome \<times> (string \<rightharpoonup> jsval)" where
  "getModule 0 en defs React vars =
     (\<lambda>cache nm. (Throws (Error ''Maximum call stack size exceeded''), cache))"
| "getModule (Suc depth) en defs React vars =
     (\<lambda>cache nm.
        case cache nm of
          Some v \<Rightarrow> (Returns v, cache)
        | None \<Rightarrow>
            (case defs nm of
               None \<Rightarrow> (Throws (Error (module_not_registered nm)), cache)
             | Some moduleFactory \<Rightarrow>
                 (case exec_step (getModule depth en defs React vars)
                         (run_module en moduleFactory React vars) cache of
                    (Returns moduleExports, cache') \<Rightarrow>
                      if typeof moduleExports \<noteq> ''object'' \<and> typeof moduleExports \<noteq> ''function''
                      then (Throws (Error (invalid_exports nm)), cache')
                      else (Returns moduleExports, cache'(nm \<mapsto> moduleExports))
                  | (Throws e, cache') \<Rightarrow> (Throws e, cache')
                  | (Diverges, cache') \<Rightarrow> (Diverges, cache'))))"

definition error_text :: "js_error \<Rightarrow> string" where
  "error_text e = (case e of Error m \<Rightarrow> m | NonError s \<Rightarrow> s)"

text \<open>The fallback component of the generated text; it closes over the caught error.\<close>

definition ErrorComponent :: "js_error \<Rightarrow> jsval" where
  "ErrorComponent err = JFun ''ErrorComponent'' [(''err'', JStr (error_text err))]"

definition not_a_component :: "engine \<Rightarrow> jsval \<Rightarrow> string" where
  "not_a_component en c =
     ''Expected a React component but got '' @ typeof c @ '' ('' @ JSON_stringify en c @
     ''). Check that your component is properly exported.''"

definition registry :: "FactoryCode \<Rightarrow> (string \<rightharpoonup> ModuleDefinition)" where
  "registry fc = foldl (\<lambda>m d. m(normalizedName d \<mapsto> d)) Map.empty (moduleDefinitions fc)"

text \<open>The values of the dependency constants: \<open>dependencies['dep']\<close> for each.\<close>

definition dependency_values :: "FactoryCode \<Rightarrow> dependencies \<Rightarrow> (string \<times> jsval) list" where
  "dependency_values fc deps = map (\<lambda>d. (fst d, read_member deps (snd d))) (dependencyVars fc)"

text \<open>\<open>getModule("entry")\<close> in the \<open>try\<close> block, on the fresh registries.\<close>

definition entry_instance :: "engine \<Rightarrow> FactoryCode \<Rightarrow> jsval \<Rightarrow> dependencies \<Rightarrow> jsval outcome" where
  "entry_instance en fc React deps =
     fst (getModule (stack_limit en) en (registry fc) React (dependency_values fc deps) Map.empty
            (entryModuleName fc))"

text \<open>\<open>entryModule.default || entryModule\<close>\<close>

definition default_or_module :: "jsval \<Rightarrow> jsval" where
  "default_or_module entryModule =
     (if truthy (get_prop entryModule ''default'') then get_prop entryModule ''default''
      else entryModule)"

text \<open>
  The globals that the generated function itself uses, outside the module bodies:
  \<open>console\<close> (in its warning about missing hooks and in every \<open>catch\<close> block), \<open>Map\<close>
  (for the two registries), \<open>Error\<close> and \<open>JSON\<close>. A dependency constant with one of
  these names hides the global in the whole function.
\<close>

definition template_globals :: "string list" where
  "template_globals = [''console'', ''Map'', ''Error'', ''JSON'']"

definition hidden_globals :: "FactoryCode \<Rightarrow> string list" where
  "hidden_globals fc = filter (\<lambda>g. g \<in> set (map fst (dependencyVars fc))) template_globals"

definition hooks :: "string list" where
  "hooks = [''useState'', ''useEffect'', ''useMemo'', ''useCallback'', ''useRef'']"

definition cannot_read :: "jsval \<Rightarrow> string \<Rightarrow> string" where
  "cannot_read v k =
     ''Cannot read properties of '' @ (if v = JNull then ''null'' else ''undefined'') @
     '' (reading '' @ [CHR 0x27] @ k @ [CHR 0x27] @ '')''"

text \<open>The \<open>try\<close> block of the generated function and its \<open>catch\<close>, no global being hidden.\<close>

definition load_component :: "engine \<Rightarrow> FactoryCode \<Rightarrow> jsval \<Rightarrow> dependencies \<Rightarrow> jsval outcome" where
  "load_component en fc React deps =
     (case entry_instance en fc React deps of
        Diverges \<Rightarrow> Diverges
      | Throws err \<Rightarrow> Returns (ErrorComponent err)
      | Returns entryModule \<Rightarrow>
          if nullish entryModule then
            Returns (ErrorComponent (Error (cannot_read entryModule ''default'')))
          else
            (let Component = default_or_module entryModule
             in if typeof Component \<noteq> ''function''
                then Returns (ErrorComponent (Error (not_a_component en Component)))
                else Returns Component))"

text \<open>
  The function the generated text returns, applied to the framework handle and the
  dependency map, in the realm of the function constructor that made it. Ahead of
  the \<open>try\<close> block:
  \<^item> reading \<open>React.useState\<close> of a nullish handle throws;
  \<^item> when the handle lacks a hook, \<open>console.warn\<close> is called; a dependency constant
    named \<open>console\<close> is declared further down in the same scope, so this reading
    of it throws;
  \<^item> \<open>new Map()\<close> throws when a dependency constant named \<open>Map\<close> holds a value that
    is not a function.
  Inside the block, reading \<open>entryModule.default\<close> of \<open>null\<close> (which passes the check
  of \<open>getModule\<close>, its type being \<open>object\<close>) throws and is caught.
\<close>

definition factoryFunction ::
  "engine \<Rightarrow> window option \<Rightarrow> FactoryCode \<Rightarrow> jsval \<Rightarrow> dependencies \<Rightarrow> jsval outcome" where
  "factoryFunction en sandboxWindow fc React deps =
     (if nullish React then
        Throws (realm_error ''TypeError'' sandboxWindow (cannot_read React ''useState''))
      else if list_ex (\<lambda>h. \<not> truthy (get_prop React h)) hooks
              \<and> ''console'' \<in> set (hidden_globals fc) then
        Throws (realm_error ''ReferenceError'' sandboxWindow
                  ''Cannot access 'console' before initialization'')
      else if hidden_globals fc = [] then load_component en fc React deps
      else
        case map_of (dependency_values fc deps) ''Map'' of
          None \<Rightarrow> shadowed_run en fc React deps
        | Some v \<Rightarrow>
            if typeof v \<noteq> ''function'' then
              Throws (realm_error ''TypeError'' sandboxWindow ''Map is not a constructor'')
            else shadowed_run en fc React deps)"

section \<open>executeCode\<close>

record ExecutionResult =
  Component :: jsval
  error :: "string option"
  forbiddenPatterns :: bool

text \<open>
  A \<open>RegExp\<close> object: its text (as \<open>`${pattern}`\<close> prints it), whether it has the
  \<open>g\<close> or \<open>y\<close> flag, its matcher (the index just after the first match found from a
  start index, if there is one) and its \<open>lastIndex\<close>.
\<close>

record Pattern =
  pattern_text :: string
  stateful :: bool
  match_from :: "string \<Rightarrow> nat \<Rightarrow> nat option"
  lastIndex :: nat

text \<open>
  \<open>pattern.test(s)\<close>: a pattern with the \<open>g\<close> or \<open>y\<close> flag starts at its
  \<open>lastIndex\<close>, moves it behind the match and resets it to 0 when nothing matches;
  any other pattern starts at 0 and leaves \<open>lastIndex\<close> alone.
\<close>

definition test :: "Pattern \<Rightarrow> string \<Rightarrow> bool \<times> Pattern" where
  "test p s =
     (if stateful p then
        (if lastIndex p > length s then (False, p\<lparr>lastIndex := 0\<rparr>)
         else case match_from p s (lastIndex p) of
                None \<Rightarrow> (False, p\<lparr>lastIndex := 0\<rparr>)
              | Some e \<Rightarrow> (True, p\<lparr>lastIndex := e\<rparr>))
      else (case match_from p s 0 of None \<Rightarrow> (False, p) | Some e \<Rightarrow> (True, p)))"

text \<open>The text of a file matches a pattern: the pattern has a match in it.\<close>

definition matches :: "Pattern \<Rightarrow> string \<Rightarrow> bool" where
  "matches p s = (match_from p s 0 \<noteq> None)"

definition forbidden_message :: "string \<Rightarrow> string \<Rightarrow> string" where
  "forbidden_message file_name pattern = ''Forbidden code pattern detected in '' @ file_name @ '': '' @ pattern"

text \<open>The inner loop over the patterns: the text of the first pattern whose test succeeds.\<close>

fun test_patterns :: "Pattern list \<Rightarrow> string \<Rightarrow> string option \<times> Pattern list" where
  "test_patterns [] s = (None, [])"
| "test_patterns (p # ps) s =
     (case test p s of
        (True, p') \<Rightarrow> (Some (pattern_text p'), p' # ps)
      | (False, p') \<Rightarrow> (case test_patterns ps s of (r, ps') \<Rightarrow> (r, p' # ps')))"

text \<open>The outer loop over the files: the error message of the first violation.\<close>

fun security_check :: "CodeFile list \<Rightarrow> Pattern list \<Rightarrow> string option \<times> Pattern list" where
  "security_check [] ps = (None, ps)"
| "security_check (file # files) ps =
     (case test_patterns ps (content file) of
        (Some pattern, ps') \<Rightarrow> (Some (forbidden_message (name file) pattern), ps')
      | (None, ps') \<Rightarrow> security_check files ps')"

datatype code_input = CodeString string | CodeFiles "CodeFile list"

definition codeFiles_of :: "code_input \<Rightarrow> CodeFile list" where
  "codeFiles_of code =
     (case code of
        CodeFiles files \<Rightarrow> files
      | CodeString s \<Rightarrow> [\<lparr> name = ''index.tsx'', content = s, isEntry = True \<rparr>])"

text \<open>The \<open>React\<close> module of the host, the default of the parameter \<open>reactContext\<close>.\<close>

definition host_React :: jsval where
  "host_React =
     JObj [(''createElement'', JFun ''createElement'' []), (''useState'', JFun ''useState'' []),
           (''useEffect'', JFun ''useEffect'' []), (''useMemo'', JFun ''useMemo'' []),
           (''useCallback'', JFun ''useCallback'' []), (''useRef'', JFun ''useRef'' [])]"

text \<open>The parameter \<open>reactContext = React\<close>: the default stands in for \<open>undefined\<close>.\<close>

definition reactContext_of :: "jsval option \<Rightarrow> jsval" where
  "reactContext_of reactContext =
     (case reactContext of
        None \<Rightarrow> host_React
      | Some r \<Rightarrow> if r = JUndefined then host_React else r)"

text \<open>
  The \<open>try\<close> block of \<open>executeCode\<close>. The patterns are objects of the caller, so
  their state after the call is part of the result.
\<close>

definition executeCode_try ::
  "platform \<Rightarrow> engine \<Rightarrow> code_input \<Rightarrow> dependencies \<Rightarrow> Pattern list \<Rightarrow> bool \<Rightarrow> bool \<Rightarrow>
   jsval option \<Rightarrow> window option \<Rightarrow> ExecutionResult outcome \<times> Pattern list" where
  "executeCode_try pf en code deps securityPatterns bypassSecurity autoResolvePackage
     reactContext sandboxWindow =
     (let codeFiles = codeFiles_of code;
          checked = (if bypassSecurity then (None, securityPatterns)
                     else security_check codeFiles securityPatterns)
      in case fst checked of
           Some msg \<Rightarrow>
             (Returns \<lparr> Component = JNull, error = Some msg, forbiddenPatterns = True \<rparr>,
              snd checked)
         | None \<Rightarrow>
            (case transformMultipleFiles pf codeFiles deps autoResolvePackage of
               Throws e \<Rightarrow> (Throws e, snd checked)
             | Diverges \<Rightarrow> (Diverges, snd checked)
             | Returns transformedCode \<Rightarrow>
                (case FunctionConstructor en sandboxWindow transformedCode of
                   Throws e \<Rightarrow> (Throws e, snd checked)
                 | Diverges \<Rightarrow> (Diverges, snd checked)
                 | Returns factory \<Rightarrow>
                    (case factoryFunction en sandboxWindow factory (reactContext_of reactContext)
                            deps of
                       Throws e \<Rightarrow> (Throws e, snd checked)
                     | Diverges \<Rightarrow> (Diverges, snd checked)
                     | Returns c \<Rightarrow>
                         (Returns \<lparr> Component = c, error = None, forbiddenPatterns = False \<rparr>,
                          snd checked)))))"

text \<open>\<open>err instanceof Error ? err.message : "An unknown error occurred"\<close>\<close>

definition caught_message :: "js_error \<Rightarrow> string" where
  "caught_message err = (case err of Error m \<Rightarrow> m | NonError s \<Rightarrow> ''An unknown error occurred'')"

definition executeCode ::
  "platform \<Rightarrow> engine \<Rightarrow> code_input \<Rightarrow> dependencies \<Rightarrow> Pattern list \<Rightarrow> bool \<Rightarrow> bool \<Rightarrow>
   jsval option \<Rightarrow> window option \<Rightarrow> ExecutionResult outcome \<times> Pattern list" where
  "executeCode pf en code deps securityPatterns bypassSecurity autoResolvePackage
     reactContext sandboxWindow =
     (case executeCode_try pf en code deps securityPatterns bypassSecurity autoResolvePackage
             reactContext sandboxWindow of
        (Throws err, ps) \<Rightarrow>
          (Returns \<lparr> Component = JNull, error = Some (caught_message err),
                     forbiddenPatterns = False \<rparr>, ps)
      | (Returns r, ps) \<Rightarrow> (Returns r, ps)
      | (Diverges, ps) \<Rightarrow> (Diverges, ps))"

section \<open>The CDN resolver\<close>

text \<open>
  Promises are objects with an identity: the heap \<open>promises\<close> holds them, and a
  promise is named by its index there. There are two kinds:
  \<^item> the promise of the asynchronous arrow function in \<open>resolvePackageFromCDN\<close>,
    which knows its package and target window and is waiting for the primary
    import, waiting for the fallback import (after the primary failed with the
    error kept), fulfilled or rejected;
  \<^item> the promise an \<open>async function\<close> hands to its caller when its body returns
    a promise: a new promise that settles as the returned one does.
\<close>

type_synonym promise_id = nat

datatype phase =
    AwaitingPrimary
  | AwaitingFallback js_error
  | Fulfilled jsval
  | Rejected js_error

datatype promise =
    Resolution string "window option" phase
  | Adopted promise_id

text \<open>
  The module state: the two caches, the heap of promises, and the calls of
  \<open>importModuleFromUrl\<close> made so far (target window and URL).
\<close>

record resolver =
  GLOBAL_CDN_CACHE :: "string \<rightharpoonup> promise_id"
  SANDBOX_CDN_CACHE :: "window \<rightharpoonup> (string \<rightharpoonup> promise_id)"
  promises :: "promise list"
  fetches :: "(window option \<times> string) list"

definition initial_resolver :: resolver where
  "initial_resolver =
     \<lparr> GLOBAL_CDN_CACHE = Map.empty, SANDBOX_CDN_CACHE = Map.empty, promises = [], fetches = [] \<rparr>"

text \<open>The global \<open>window\<close> of the host.\<close>

definition host_window :: window where
  "host_window = 0"

text \<open>\<open>!targetWindow || targetWindow === window\<close>\<close>

definition is_host :: "window option \<Rightarrow> bool" where
  "is_host targetWindow = (case targetWindow of None \<Rightarrow> True | Some w \<Rightarrow> w = host_window)"

text \<open>\<open>getCache\<close> makes the cache of a sandbox window when it is first asked for.\<close>

definition getCache :: "window option \<Rightarrow> resolver \<Rightarrow> (string \<rightharpoonup> promise_id) \<times> resolver" where
  "getCache targetWindow s =
     (case targetWindow of
        None \<Rightarrow> (GLOBAL_CDN_CACHE s, s)
      | Some w \<Rightarrow>
          if w = host_window then (GLOBAL_CDN_CACHE s, s)
          else (case SANDBOX_CDN_CACHE s w of
                  None \<Rightarrow> (Map.empty, s\<lparr>SANDBOX_CDN_CACHE := (SANDBOX_CDN_CACHE s)(w \<mapsto> Map.empty)\<rparr>)
                | Some cache \<Rightarrow> (cache, s)))"

text \<open>\<open>cache.set(packageName, p)\<close> on the cache that \<open>getCache\<close> gave.\<close>

definition cache_set :: "window option \<Rightarrow> string \<Rightarrow> promise_id \<Rightarrow> resolver \<Rightarrow> resolver" where
  "cache_set targetWindow packageName p s =
     (case targetWindow of
        None \<Rightarrow> s\<lparr>GLOBAL_CDN_CACHE := (GLOBAL_CDN_CACHE s)(packageName \<mapsto> p)\<rparr>
      | Some w \<Rightarrow>
          if w = host_window then s\<lparr>GLOBAL_CDN_CACHE := (GLOBAL_CDN_CACHE s)(packageName \<mapsto> p)\<rparr>
          else s\<lparr>SANDBOX_CDN_CACHE := (SANDBOX_CDN_CACHE s)
                   (w \<mapsto> (case SANDBOX_CDN_CACHE s w of
                              None \<Rightarrow> [packageName \<mapsto> p]
                            | Some cache \<Rightarrow> cache(packageName \<mapsto> p)))\<rparr>)"

definition cdnUrl :: "string \<Rightarrow> string" where
  "cdnUrl packageName =
     ''https://esm.sh/'' @ packageName @ ''?external=react,react-dom&target=es2022&dev''"

definition fallbackUrl :: "string \<Rightarrow> string" where
  "fallbackUrl packageName = ''https://cdn.jsdelivr.net/npm/'' @ packageName @ ''/+esm''"

definition new_promise :: "promise \<Rightarrow> resolver \<Rightarrow> promise_id \<times> resolver" where
  "new_promise p s = (length (promises s), s\<lparr>promises := promises s @ [p]\<rparr>)"

text \<open>
  \<open>resolvePackageFromCDN\<close>. The function is \<open>async\<close>: what it returns to its
  caller is a new promise that adopts the promise its body returns. On a miss, the
  arrow function runs up to its first \<open>await\<close>, which starts the primary import,
  before its promise is put into the cache.
\<close>

definition resolvePackageFromCDN ::
  "string \<Rightarrow> window option \<Rightarrow> resolver \<Rightarrow> promise_id \<times> resolver" where
  "resolvePackageFromCDN packageName targetWindow s =
     (let (cache, s1) = getCache targetWindow s
      in case cache packageName of
           Some cached \<Rightarrow> new_promise (Adopted cached) s1
         | None \<Rightarrow>
             (let s2 = s1\<lparr>fetches := fetches s1 @ [(targetWindow, cdnUrl packageName)]\<rparr>;
                  (resolvePromise, s3) = new_promise (Resolution packageName targetWindow AwaitingPrimary) s2;
                  s4 = cache_set targetWindow packageName resolvePromise s3
              in new_promise (Adopted resolvePromise) s4))"

definition composite_message :: "string \<Rightarrow> js_error \<Rightarrow> js_error \<Rightarrow> string" where
  "composite_message packageName primaryError fallbackError =
     ''Failed to resolve '' @ packageName @ '' from CDN. '' @
     ''Primary error: '' @ error_text primaryError @ ''. '' @
     ''Fallback error: '' @ error_text fallbackError"

text \<open>
  An import that a resolution promise awaits settles: the rest of the arrow
  function runs. A failed primary import starts the fallback import; a failed
  fallback import rejects with the composite error.
\<close>

definition settle :: "promise_id \<Rightarrow> js_error + jsval \<Rightarrow> resolver \<Rightarrow> resolver" where
  "settle p r s =
     (if p < length (promises s) then
        (case promises s ! p of
           Resolution packageName targetWindow AwaitingPrimary \<Rightarrow>
             (case r of
                Inr module \<Rightarrow>
                  s\<lparr>promises := (promises s)[p := Resolution packageName targetWindow (Fulfilled module)]\<rparr>
              | Inl e \<Rightarrow>
                  s\<lparr>promises := (promises s)[p := Resolution packageName targetWindow (AwaitingFallback e)],
                    fetches := fetches s @ [(targetWindow, fallbackUrl packageName)]\<rparr>)
         | Resolution packageName targetWindow (AwaitingFallback e) \<Rightarrow>
             (case r of
                Inr module \<Rightarrow>
                  s\<lparr>promises := (promises s)[p := Resolution packageName targetWindow (Fulfilled module)]\<rparr>
              | Inl fallbackError \<Rightarrow>
                  s\<lparr>promises := (promises s)[p := Resolution packageName targetWindow
                        (Rejected (Error (composite_message packageName e fallbackError)))]\<rparr>)
         | Resolution packageName targetWindow (Fulfilled v) \<Rightarrow> s
         | Resolution packageName targetWindow (Rejected e) \<Rightarrow> s
         | Adopted q \<Rightarrow> s)
      else s)"

definition clearCDNCache :: "resolver \<Rightarrow> resolver" where
  "clearCDNCache s = s\<lparr>GLOBAL_CDN_CACHE := Map.empty, SANDBOX_CDN_CACHE := Map.empty\<rparr>"

text \<open>What happens to the resolver, one event after the other.\<close>

datatype event =
    Resolve string "window option"
  | Settle promise_id "js_error + jsval"
  | Clear

fun apply_event :: "resolver \<Rightarrow> event \<Rightarrow> resolver" where
  "apply_event s (Resolve packageName targetWindow) = snd (resolvePackageFromCDN packageName targetWindow s)"
| "apply_event s (Settle p r) = settle p r s"
| "apply_event s Clear = clearCDNCache s"

definition run_events :: "event list \<Rightarrow> resolver \<Rightarrow> resolver" where
  "run_events events s = foldl apply_event s events"

text \<open>What \<open>await\<close> of a promise gives once it has settled.\<close>

definition phase_result :: "phase \<Rightarrow> (js_error + jsval) option" where
  "phase_result ph =
     (case ph of
        Fulfilled v \<Rightarrow> Some (Inr v)
      | Rejected e \<Rightarrow> Some (Inl e)
      | AwaitingPrimary \<Rightarrow> None
      | AwaitingFallback e \<Rightarrow> None)"

definition resolution_result :: "resolver \<Rightarrow> promise_id \<Rightarrow> (js_error + jsval) option" where
  "resolution_result s p =
     (if p < length (promises s) then
        (case promises s ! p of
           Resolution packageName targetWindow ph \<Rightarrow> phase_result ph
         | Adopted q \<Rightarrow> None)
      else None)"

definition awaited :: "resolver \<Rightarrow> promise_id \<Rightarrow> (js_error + jsval) option" where
  "awaited s p =
     (if p < length (promises s) then
        (case promises s ! p of
           Resolution packageName targetWindow ph \<Rightarrow> phase_result ph
         | Adopted q \<Rightarrow> resolution_result s q)
      else None)"

text \<open>The cache a request against a target window looks into.\<close>

definition cache_of :: "resolver \<Rightarrow> window option \<Rightarrow> (string \<rightharpoonup> promise_id)" where
  "cache_of s targetWindow = fst (getCache targetWindow s)"

text \<open>
  The realm a target window stands for: the host (no window, or the host's own
  window) or the sandbox window itself.
\<close>

definition realm_of :: "window option \<Rightarrow> window option" where
  "realm_of targetWindow = (if is_host targetWindow then None else targetWindow)"

text \<open>The imports started for a URL in a realm.\<close>

definition fetch_count :: "resolver \<Rightarrow> window option \<Rightarrow> string \<Rightarrow> nat" where
  "fetch_count s realm url =
     length (filter (\<lambda>f. realm_of (fst f) = realm \<and> snd f = url) (fetches s))"

section \<open>The CodeExecutor component\<close>

record config =
  code :: code_input
  dependencies :: dependencies
  onError :: bool
  autoResolvePackage :: bool
  sandbox :: bool

text \<open>
  The state of one mounted \<open>CodeExecutor\<close>: its React state and refs, what the root
  inside the iframe renders, the pattern objects of the caller, and the calls of
  the \<open>onError\<close> callback made so far. The field \<open>onError\<close> of the configuration says
  whether a callback was given.
\<close>

record executor =
  executionResult :: ExecutionResult
  resolvedDependencies :: dependencies
  isLoading :: bool
  hasChanges :: bool
  iframeReady :: bool
  contentWindow :: "window option"
  sandbox_React :: jsval
  rendered :: "jsval option"
  prevCode :: "code_input option"
  prevDependencies :: "dependencies option"
  prevSandboxContext :: "string option"
  securityPatterns :: "Pattern list"
  onError_calls :: "js_error list"

definition initialExecutionResult :: ExecutionResult where
  "initialExecutionResult = \<lparr> Component = JNull, error = None, forbiddenPatterns = False \<rparr>"

text \<open>
  The state at mount: the initial values of \<open>useState\<close> and \<open>useRef\<close>. Nothing was
  executed before, so \<open>hasChanges\<close> holds.
\<close>

definition initial_executor :: "config \<Rightarrow> Pattern list \<Rightarrow> executor" where
  "initial_executor cfg patterns =
     \<lparr> executionResult = initialExecutionResult,
       resolvedDependencies = dependencies cfg,
       isLoading = False,
       hasChanges = True,
       iframeReady = False,
       contentWindow = None,
       sandbox_React = JUndefined,
       rendered = None,
       prevCode = None,
       prevDependencies = None,
       prevSandboxContext = None,
       securityPatterns = patterns,
       onError_calls = [] \<rparr>"

definition sandboxContext :: "bool \<Rightarrow> string" where
  "sandboxContext sb = (if sb then ''sandbox'' else ''parent'')"

subsection \<open>Resolving the missing dependencies\<close>

definition missingDeps :: "platform \<Rightarrow> CodeFile list \<Rightarrow> dependencies \<Rightarrow> string list" where
  "missingDeps pf codeFiles deps =
     Set_from (filter (\<lambda>importPath. importPath \<noteq> ''react'' \<and> \<not> starts_with ''.'' importPath
                          \<and> \<not> starts_with ''/'' importPath \<and> \<not> truthy (read_member deps importPath))
                 (concat (map (\<lambda>file. scanImports pf (content file)) codeFiles)))"

text \<open>
  \<open>Array.from(missingDeps).map(async (dep) => ...)\<close>: every arrow function runs up
  to its \<open>await\<close>, so \<open>resolvePackageFromCDN\<close> is called for each dependency in turn.
\<close>

fun request_all ::
  "string list \<Rightarrow> window option \<Rightarrow> resolver \<Rightarrow> (string \<times> promise_id) list \<times> resolver" where
  "request_all [] targetWindow r = ([], r)"
| "request_all (dep # deps) targetWindow r =
     (let (p, r1) = resolvePackageFromCDN dep targetWindow r;
          (ps, r2) = request_all deps targetWindow r1
      in ((dep, p) # ps, r2))"

text \<open>
  The effect that resolves the missing dependencies, up to the point where it
  waits: the requests it made, and the new state of component and resolver.
\<close>

definition resolution_effect ::
  "platform \<Rightarrow> config \<Rightarrow> executor \<Rightarrow> resolver \<Rightarrow> (string \<times> promise_id) list \<times> executor \<times> resolver" where
  "resolution_effect pf cfg st r =
     (if \<not> hasChanges st then ([], st, r)
      else if \<not> autoResolvePackage cfg then
        ([], st\<lparr>resolvedDependencies := dependencies cfg, isLoading := False\<rparr>, r)
      else
        let missing = missingDeps pf (codeFiles_of (code cfg)) (dependencies cfg);
            targetWindow = (if sandbox cfg then contentWindow st else None)
        in if missing = [] then
             ([], st\<lparr>resolvedDependencies := dependencies cfg, isLoading := False\<rparr>, r)
           else if sandbox cfg \<and> (\<not> iframeReady st \<or> targetWindow = None) then
             ([], st\<lparr>isLoading := True\<rparr>, r)
           else
             (fst (request_all missing targetWindow r), st\<lparr>isLoading := True\<rparr>,
              snd (request_all missing targetWindow r)))"

text \<open>
  The arrow function around one request: a rejection is caught and logged, and
  the dependency is reported as \<open>null\<close>.
\<close>

definition resolved_or_null :: "js_error + jsval \<Rightarrow> jsval" where
  "resolved_or_null r = (case r of Inl e \<Rightarrow> JNull | Inr module \<Rightarrow> module)"

text \<open>\<open>results.forEach\<close>: every dependency that is not \<open>null\<close> is written into \<open>newDeps\<close>.\<close>

definition merge_results :: "dependencies \<Rightarrow> (string \<times> jsval) list \<Rightarrow> dependencies" where
  "merge_results deps results =
     foldl (\<lambda>newDeps res. if snd res \<noteq> JNull then Map_set (fst res) (snd res) newDeps else newDeps)
       deps results"

text \<open>
  The rest of \<open>resolveDependencies\<close>, run when every request has settled (and the
  effect was not cancelled); \<open>None\<close> while a request is pending.
\<close>

definition resolveDependencies ::
  "config \<Rightarrow> (string \<times> promise_id) list \<Rightarrow> resolver \<Rightarrow> executor \<Rightarrow> executor option" where
  "resolveDependencies cfg requests r st =
     (if \<forall>q \<in> set requests. awaited r (snd q) \<noteq> None then
        Some (st\<lparr>resolvedDependencies :=
                    merge_results (dependencies cfg)
                      (map (\<lambda>q. (fst q, case awaited r (snd q) of
                                           None \<Rightarrow> JNull
                                         | Some res \<Rightarrow> resolved_or_null res)) requests),
                 isLoading := False\<rparr>)
      else None)"

subsection \<open>Executing the code\<close>

definition is_Error :: "js_error \<Rightarrow> bool" where
  "is_Error err = (case err of Error m \<Rightarrow> True | NonError s \<Rightarrow> False)"

text \<open>The \<open>catch\<close> block of the effect: the error is shown, and reported to \<open>onError\<close>.\<close>

definition effect_catch :: "config \<Rightarrow> js_error \<Rightarrow> executor \<Rightarrow> executor" where
  "effect_catch cfg err st =
     st\<lparr>executionResult :=
          \<lparr> Component = JNull, error = Some (error_text err), forbiddenPatterns = False \<rparr>,
        onError_calls := (if onError cfg \<and> is_Error err then onError_calls st @ [err]
                          else onError_calls st)\<rparr>"

definition effect_done :: "config \<Rightarrow> ExecutionResult \<Rightarrow> executor \<Rightarrow> executor" where
  "effect_done cfg result st =
     st\<lparr>executionResult := result,
        prevCode := Some (code cfg),
        prevDependencies := Some (resolvedDependencies st),
        prevSandboxContext := Some (sandboxContext (sandbox cfg))\<rparr>"

text \<open>The effect "Execute code on changes".\<close>

definition execution_effect :: "platform \<Rightarrow> engine \<Rightarrow> config \<Rightarrow> executor \<Rightarrow> executor outcome" where
  "execution_effect pf en cfg st =
     (if \<not> hasChanges st \<or> isLoading st then Returns st
      else if sandbox cfg then
        (if \<not> iframeReady st then Returns st
         else case contentWindow st of
                None \<Rightarrow> Returns st
              | Some sandboxWindow \<Rightarrow>
                  (let react = (if truthy (sandbox_React st) then sandbox_React st else host_React);
                       st1 = st\<lparr>sandbox_React := react\<rparr>
                   in case executeCode pf en (code cfg) (resolvedDependencies st)
                             (securityPatterns st) False (autoResolvePackage cfg)
                             (Some react) (Some sandboxWindow) of
                        (Returns result, ps) \<Rightarrow>
                          Returns ((effect_done cfg result (st1\<lparr>securityPatterns := ps\<rparr>))
                                     \<lparr>rendered := (if truthy (Component result)
                                                   then Some (Component result) else None)\<rparr>)
                      | (Throws err, ps) \<Rightarrow>
                          Returns (effect_catch cfg err (st1\<lparr>securityPatterns := ps, rendered := None\<rparr>))
                      | (Diverges, ps) \<Rightarrow> Diverges))
      else
        (case executeCode pf en (code cfg) (resolvedDependencies st) (securityPatterns st) False
                (autoResolvePackage cfg) None None of
           (Returns result, ps) \<Rightarrow> Returns (effect_done cfg result (st\<lparr>securityPatterns := ps\<rparr>))
         | (Throws err, ps) \<Rightarrow> Returns (effect_catch cfg err (st\<lparr>securityPatterns := ps\<rparr>))
         | (Diverges, ps) \<Rightarrow> Diverges))"

text \<open>\<open>handleExecutionError\<close>, the callback given to the error boundary.\<close>

definition handleExecutionError :: "config \<Rightarrow> string \<Rightarrow> executor \<Rightarrow> executor" where
  "handleExecutionError cfg message st =
     st\<lparr>rendered := (if sandbox cfg then None else rendered st),
        executionResult := (executionResult st)\<lparr>error := Some message, Component := JNull\<rparr>,
        onError_calls := (if onError cfg then onError_calls st @ [Error message]
                          else onError_calls st)\<rparr>"

section \<open>The default security patterns\<close>

definition to_lower :: "char \<Rightarrow> char" where
  "to_lower c =
     (case map_of (zip ''ABCDEFGHIJKLMNOPQRSTUVWXYZ'' ''abcdefghijklmnopqrstuvwxyz'') c of
        None \<Rightarrow> c
      | Some l \<Rightarrow> l)"

text \<open>
  The matcher of a pattern that is a literal text: the first occurrence at or
  after a position, letters compared through \<open>norm\<close>.
\<close>

fun search :: "(char \<Rightarrow> char) \<Rightarrow> string \<Rightarrow> string \<Rightarrow> nat \<Rightarrow> nat option" where
  "search norm lit [] pos = (if lit = [] then Some pos else None)"
| "search norm lit (c # cs) pos =
     (if starts_with (map norm lit) (map norm (c # cs)) then Some (pos + length lit)
      else search norm lit cs (Suc pos))"

definition literal_matcher :: "(char \<Rightarrow> char) \<Rightarrow> string \<Rightarrow> string \<Rightarrow> nat \<Rightarrow> nat option" where
  "literal_matcher norm lit s start = search norm lit (drop start s) start"

definition backslash :: string where
  "backslash = [CHR 0x5C]"

text \<open>A pattern \<open>/lit/i\<close>, written \<open>new RegExp(source, "i")\<close>.\<close>

definition literal_i :: "string \<Rightarrow> string \<Rightarrow> Pattern" where
  "literal_i src lit =
     \<lparr> pattern_text = ''/'' @ src @ ''/i'', stateful = False,
       match_from = literal_matcher to_lower lit, lastIndex = 0 \<rparr>"

definition cookie_pattern :: Pattern where
  "cookie_pattern = literal_i (''document'' @ backslash @ ''.cookie'') ''document.cookie''"

definition window_cookie_pattern :: Pattern where
  "window_cookie_pattern =
     literal_i (''window'' @ backslash @ ''.document'' @ backslash @ ''.cookie'') ''window.document.cookie''"

definition eval_pattern :: Pattern where
  "eval_pattern = literal_i (''eval'' @ backslash @ ''('') ''eval(''"

definition Function_pattern :: Pattern where
  "Function_pattern = literal_i (''Function'' @ backslash @ ''('') ''Function(''"

definition write_pattern :: Pattern where
  "write_pattern = literal_i (''document'' @ backslash @ ''.write'') ''document.write''"

definition location_pattern :: Pattern where
  "location_pattern = literal_i (''document'' @ backslash @ ''.location'') ''document.location''"

definition defaultSecurityPatterns :: "Pattern list" where
  "defaultSecurityPatterns =
     [cookie_pattern, window_cookie_pattern, eval_pattern, Function_pattern, write_pattern,
      location_pattern]"

text \<open>The pattern \<open>/eval\(/g\<close>, as a caller may give it, with a \<open>lastIndex\<close>.\<close>

definition eval_global :: "nat \<Rightarrow> Pattern" where
  "eval_global i =
     \<lparr> pattern_text = ''/eval'' @ backslash @ ''(/g'', stateful = True,
       match_from = literal_matcher (\<lambda>c. c) ''eval('', lastIndex = i \<rparr>"

section \<open>Sample runs\<close>

text \<open>
  The sources used in the sample runs below, and a platform and an engine that do
  on these sources what the regular expressions of the source, Babel and a
  JavaScript engine do on them.
\<close>

definition src_leftpad :: string where
  "src_leftpad = ''import p from 'left-pad'; p();''"

definition src_css :: string where
  "src_css = ''import './s.css'; import p from 'left-pad'; p();''"

definition src_unused :: string where
  "src_unused = ''import p from 'left-pad';''"

definition src_app :: string where
  "src_app = ''export default function App() { return null; }''"

definition src_plain :: string where
  "src_plain = ''module.exports = function Plain() { return null; };''"

definition src_loop :: string where
  "src_loop = ''while (true) {}''"

definition src_eval1 :: string where
  "src_eval1 = ''eval(1)''"

definition src_eval2 :: string where
  "src_eval2 = ''eval(2)''"

definition src_two :: string where
  "src_two = ''import a from 'foo-bar'; import b from 'foo.bar';''"

definition src_main :: string where
  "src_main =
     ''import { Greeting } from './Greeting'; export default function App() { return Greeting(); }''"

definition src_main_stripped :: string where
  "src_main_stripped =
     ''import { Greeting } from './Greeting'; function App() { return Greeting(); }''"

definition src_greeting :: string where
  "src_greeting = ''export const Greeting = () => null;''"

text \<open>
  In \<open>src_leftpad\<close>, \<open>src_css\<close> and \<open>src_main\<close> the imported binding is called, so the
  TypeScript preset keeps the import; in \<open>src_unused\<close> and \<open>src_two\<close> nothing refers
  to the imported bindings. The first import of \<open>src_css\<close> has no specifiers.
\<close>

definition sample_platform :: platform where
  "sample_platform =
     \<lparr> removeDefaultExport =
         (\<lambda>s. if s = src_app then (''function App() { return null; }'', Some ''App'')
              else if s = src_main then (src_main_stripped, Some ''App'')
              else (s, None)),
       scanNamedExports = (\<lambda>s. if s = src_greeting then [''Greeting''] else []),
       scanDeclExports = (\<lambda>s. if s = src_greeting then [''Greeting''] else []),
       stripExports = (\<lambda>s. if s = src_greeting then ''const Greeting = () => null;'' else s),
       babel_parse =
         (\<lambda>s. if s = src_leftpad then
                Inr [ImportDeclaration ''left-pad'' [ImportDefaultSpecifier ''p''],
                     Other ''p();'']
              else if s = src_css then
                Inr [ImportDeclaration ''./s.css'' [],
                     ImportDeclaration ''left-pad'' [ImportDefaultSpecifier ''p''],
                     Other ''p();'']
              else if s = src_unused then
                Inr [ImportDeclaration ''left-pad'' [ImportDefaultSpecifier ''p'']]
              else if s = src_main_stripped then
                Inr [ImportDeclaration ''./Greeting'' [ImportSpecifier ''Greeting'' ''Greeting''],
                     Other ''function App() { return Greeting(); }'']
              else if s = src_two then
                Inr [ImportDeclaration ''foo-bar'' [ImportDefaultSpecifier ''a''],
                     ImportDeclaration ''foo.bar'' [ImportDefaultSpecifier ''b'']]
              else Inr [Other s]),
       isImportTypeOnly =
         (\<lambda>s l. \<not> ((s = src_leftpad \<or> s = src_css) \<and> l = ''p''
                    \<or> s = src_main_stripped \<and> l = ''Greeting'')),
       preset_error = (\<lambda>t. None),
       babel_label = ''unknown file: '',
       scanImports =
         (\<lambda>s. if s = src_leftpad \<or> s = src_unused \<or> s = src_css then [''left-pad'']
              else if s = src_two then [''foo-bar'', ''foo.bar'']
              else if s = src_main then [''./Greeting'']
              else []) \<rparr>"

text \<open>
  The engine of the sample runs. The module of \<open>src_app\<close> ends with its default
  export set; the module of \<open>src_plain\<close> ends with a function as its exports; the
  module of \<open>src_main\<close> asks for the module \<open>Greeting\<close> and then ends with its
  default export set; the module of \<open>src_greeting\<close> ends with its named export
  set; the module of \<open>src_leftpad\<close> reads the variable \<open>left_pad\<close> and throws when
  nothing declares it; the module of \<open>src_loop\<close> never ends; any other module ends
  with empty exports. No sample run hides a global by a function.
\<close>

definition sample_engine :: engine where
  "sample_engine =
     \<lparr> early_error = (\<lambda>t. None),
       run_module =
         (\<lambda>d React vars.
            if body d = [Other ''function App() { return null; }''] then
              Done (JObj [(''default'', JFun ''App'' [])])
            else if body d = [Other src_plain] then Done (JFun ''Plain'' [])
            else if body d = [VariableDeclaration ''Greeting''
                                (MemberExpression (CallGetModule ''Greeting'') ''Greeting''),
                              Other ''function App() { return Greeting(); }''] then
              Require ''Greeting''
                (\<lambda>r. case r of Inl e \<Rightarrow> Throw e
                            | Inr m \<Rightarrow> Done (JObj [(''default'', JFun ''App'' [])]))
            else if body d = [Other ''const Greeting = () => null;''] then
              Done (JObj [(''Greeting'', JFun ''Greeting'' [])])
            else if body d = [VariableDeclaration ''p'' (Identifier ''left_pad''),
                              Other ''p();''] then
              (case map_of vars ''left_pad'' of
                 None \<Rightarrow> Throw (Error ''left_pad is not defined'')
               | Some v \<Rightarrow> Done (JObj []))
            else if body d = [Other src_loop] then Loop
            else Done (JObj [])),
       shadowed_run = (\<lambda>fc React deps. Diverges),
       stack_limit = 1000,
       JSON_stringify = (\<lambda>v. ''{}'') \<rparr>"

definition two_deps :: dependencies where
  "two_deps = [(''foo-bar'', JObj []), (''foo.bar'', JObj [])]"

text \<open>
  What \<open>transformMultipleFiles\<close> generates for \<open>src_two\<close> and \<open>two_deps\<close>: both
  imports are removed, and \<open>export {};\<close> is what is left of the module.
\<close>

definition two_factory :: FactoryCode where
  "two_factory =
     \<lparr> dependencyVars = [(''foo_bar'', ''foo-bar''), (''foo_bar'', ''foo.bar'')],
       moduleDefinitions =
         [\<lparr> normalizedName = ''index'', body = [ExportNamedDeclaration None []],
            defaultSetup = None, namedSetup = [], hookSetup = None \<rparr>],
       entryModuleName = ''index'' \<rparr>"

text \<open>What it generates for \<open>src_loop\<close>, for \<open>src_app\<close> and for \<open>src_plain\<close>.\<close>

definition loop_factory :: FactoryCode where
  "loop_factory =
     \<lparr> dependencyVars = [],
       moduleDefinitions =
         [\<lparr> normalizedName = ''index'', body = [Other src_loop],
            defaultSetup = None, namedSetup = [], hookSetup = None \<rparr>],
       entryModuleName = ''index'' \<rparr>"





definition unused_factory :: FactoryCode where
  "unused_factory =
     \<lparr> dependencyVars = [],
       moduleDefinitions =
         [\<lparr> normalizedName = ''App'', body = [ExportNamedDeclaration None []],
            defaultSetup = None, namedSetup = [], hookSetup = None \<rparr>],
       entryModuleName = ''App'' \<rparr>"



text \<open>What it generates for \<open>src_app\<close> and a dependency map with the key \<open>Map\<close>.\<close>

definition Map_deps :: dependencies where
  "Map_deps = [(''Map'', JObj [])]"

definition Map_factory :: FactoryCode where
  "Map_factory =
     \<lparr> dependencyVars = [(''Map'', ''Map'')],
       moduleDefinitions =
         [\<lparr> normalizedName = ''index'', body = [Other ''function App() { return null; }''],
            defaultSetup = Some ''App'', namedSetup = [], hookSetup = None \<rparr>],
       entryModuleName = ''index'' \<rparr>"

text \<open>A source set of one file that imports, and calls, a package nobody provides.\<close>

definition leftpad_file :: CodeFile where
  "leftpad_file = \<lparr> name = ''App.tsx'', content = src_leftpad, isEntry = True \<rparr>"

text \<open>The same with a side-effect import ahead of it.\<close>

definition css_file :: CodeFile where
  "css_file = \<lparr> name = ''App.tsx'', content = src_css, isEntry = True \<rparr>"

text \<open>The same with an import that nothing uses.\<close>

definition unused_file :: CodeFile where
  "unused_file = \<lparr> name = ''App.tsx'', content = src_unused, isEntry = True \<rparr>"

text \<open>
  A configuration with an \<open>onError\<close> callback whose code cannot be transformed:
  the package is not provided and automatic resolution is off.
\<close>

definition failing_config :: "bool \<Rightarrow> config" where
  "failing_config sb =
     \<lparr> code = CodeFiles [leftpad_file], dependencies = [], onError = True,
       autoResolvePackage = False, sandbox = sb \<rparr>"

text \<open>The state of a sandboxed executor whose iframe (window 1) has loaded.\<close>

definition loaded_executor :: "config \<Rightarrow> Pattern list \<Rightarrow> executor" where
  "loaded_executor cfg patterns =
     (initial_executor cfg patterns)
       \<lparr> iframeReady := True, contentWindow := Some 1, sandbox_React := host_React \<rparr>"



text \<open>
  A run in which the package has to be resolved and both registries fail: the
  requests of the resolution effect, and the resolver after the primary and then
  the fallback import of promise 0 have failed.
\<close>

definition auto_config :: config where
  "auto_config =
     \<lparr> code = CodeFiles [leftpad_file], dependencies = [], onError = True,
       autoResolvePackage = True, sandbox = False \<rparr>"

definition primary_failure :: js_error where
  "primary_failure = Error (''Failed to fetch dynamically imported module: '' @ cdnUrl ''left-pad'')"

definition fallback_failure :: js_error where
  "fallback_failure = Error (''Failed to fetch dynamically imported module: '' @ fallbackUrl ''left-pad'')"

definition requested :: "(string \<times> promise_id) list \<times> executor \<times> resolver" where
  "requested =
     resolution_effect sample_platform auto_config
       (initial_executor auto_config defaultSecurityPatterns) initial_resolver"

definition failed_resolver :: resolver where
  "failed_resolver =
     settle 0 (Inl fallback_failure) (settle 0 (Inl primary_failure) (snd (snd requested)))"

section \<open>Auxiliary facts\<close>





lemma normalizedName_module_definition [simp]:
  "normalizedName (module_definition pf files e) = normalizeFilename (fst e)"
  by (simp add: module_definition_def Let_def)







lemma executeCode_never_throws: "fst (executeCode pf en c deps ps bypass auto react w) \<noteq> Throws e"
  by (auto simp: executeCode_def split: prod.splits outcome.splits)

lemma executeCode_catches:
  "fst (executeCode_try pf en c deps ps bypass auto react w) = Throws err \<Longrightarrow>
   fst (executeCode pf en c deps ps bypass auto react w) =
     Returns \<lparr> Component = JNull, error = Some (caught_message err), forbiddenPatterns = False \<rparr>"
  by (auto simp: executeCode_def split: prod.splits outcome.splits)

lemma visit_import_not_Diverges:
  "visit_import allowed varMap paths ei auto source specs \<noteq> Diverges"
  by (simp add: visit_import_def Let_def)

lemma visit_statement_not_Diverges: "visit_statement pf s \<noteq> Diverges"
  by (cases s) (auto simp: visit_declaration_def split: option.splits)

lemma traverse_not_Diverges: "traverse pf allowed paths ei auto program varMap \<noteq> Diverges"
proof (induction program arbitrary: varMap)
  case Nil
  then show ?case by simp
next
  case (Cons s rest)
  show ?case
  proof (cases "is_import s")
    case True
    then obtain source specifiers where s: "s = ImportDeclaration source specifiers"
      by (cases s) auto
    show ?thesis
      using visit_import_not_Diverges [of allowed varMap paths ei auto source specifiers] Cons.IH
      by (cases "visit_import allowed varMap paths ei auto source specifiers")
         (auto simp: s split: outcome.splits prod.splits)
  next
    case False
    then have step: "traverse pf allowed paths ei auto (s # rest) varMap =
        (case visit_statement pf s of
           Throws e \<Rightarrow> Throws e
         | Diverges \<Rightarrow> Diverges
         | Returns nodes \<Rightarrow>
             (case traverse pf allowed paths ei auto rest varMap of
                Throws e \<Rightarrow> Throws e
              | Diverges \<Rightarrow> Diverges
              | Returns (out, warned') \<Rightarrow> Returns (nodes @ out, warned')))"
      by (cases s) auto
    show ?thesis
      unfolding step
      using visit_statement_not_Diverges [of pf s] Cons.IH [of varMap]
      by (auto split: outcome.splits prod.splits)
  qed
qed

lemma transform_not_Diverges: "transform pf allowed varMap files ei auto input \<noteq> Diverges"
  using traverse_not_Diverges by (auto simp: transform_def split: sum.splits outcome.splits)

lemma transform_file_not_Diverges: "transform_file pf files deps ei auto file \<noteq> Diverges"
  using transform_not_Diverges
  by (auto simp: transform_file_def Let_def split: prod.splits outcome.splits)




lemma FunctionConstructor_Returns_iff:
  "FunctionConstructor en w fc = Returns fc \<longleftrightarrow> generated_error en fc = None"
  by (auto simp: FunctionConstructor_def split: option.splits)



section \<open>Sanitized dependency names\<close>

lemma safeName_foo_dash: "safeName ''foo-bar'' = ''foo_bar''"
  by (simp add: safeName_def word_chars_def)

lemma safeName_foo_dot: "safeName ''foo.bar'' = ''foo_bar''"
  by (simp add: safeName_def word_chars_def)

lemma safeName_not_injective: "\<not> inj safeName"
proof
  assume inj: "inj safeName"
  have "safeName ''foo-bar'' = safeName ''foo.bar''"
    by (simp add: safeName_foo_dash safeName_foo_dot)
  with inj have "''foo-bar'' = ''foo.bar''" by (rule injD)
  then show False by simp
qed

lemma declaration_error_None:
  "declaration_error en seen ds = None \<Longrightarrow>
   distinct (map fst ds) \<and> set (map fst ds) \<inter> set seen = {}"
proof (induction ds arbitrary: seen)
  case Nil
  then show ?case by simp
next
  case (Cons d ds)
  from Cons.prems have x: "fst d \<notin> set seen"
    and r: "declaration_error en (fst d # seen) ds = None"
    by (auto split: option.splits if_splits)
  from Cons.IH [OF r] have "distinct (map fst ds)" and "set (map fst ds) \<inter> set (fst d # seen) = {}"
    by auto
  with x show ?case by auto
qed

lemma declaration_error_Some:
  "\<not> distinct (map fst ds) \<Longrightarrow> \<exists>msg. declaration_error en seen ds = Some msg"
  using declaration_error_None [of en seen ds] by (cases "declaration_error en seen ds") auto

lemma transformMultipleFiles_dependencyVars:
  "transformMultipleFiles pf files deps auto = Returns fc \<Longrightarrow>
   dependencyVars fc = map (\<lambda>dep. (safeName dep, dep)) (map fst deps)"
  by (auto simp: transformMultipleFiles_def Let_def split: outcome.splits option.splits)

lemma colliding_not_distinct:
  assumes "d1 \<in> set ds" "d2 \<in> set ds" "d1 \<noteq> d2" "f d1 = f d2"
  shows "\<not> distinct (map f ds)"
  using assms by (auto simp: distinct_map inj_on_def)

lemma FunctionConstructor_redeclared:
  assumes "\<not> distinct (map fst (dependencyVars fc))"
  shows "\<exists>msg. FunctionConstructor en w fc = Throws (syntax_error w msg)"
proof -
  obtain msg where
    "declaration_error en [''React'', ''dependencies''] (dependencyVars fc) = Some msg"
    using declaration_error_Some [OF assms] by blast
  then show ?thesis by (auto simp: FunctionConstructor_def generated_error_def)
qed

lemma executeCode_redeclared:
  assumes "transformMultipleFiles pf (codeFiles_of c) deps auto = Returns fc"
    and "\<not> distinct (map fst (dependencyVars fc))"
  shows "\<exists>r ps'. executeCode pf en c deps ps bypass auto react w = (Returns r, ps')
           \<and> Component r = JNull \<and> error r \<noteq> None"
proof -
  obtain x where x: "FunctionConstructor en w fc = Throws (syntax_error w x)"
    using FunctionConstructor_redeclared [OF assms(2)] by blast
  show ?thesis
    by (cases "fst (if bypass then (None, ps) else security_check (codeFiles_of c) ps)")
       (auto simp: executeCode_def executeCode_try_def Let_def assms(1) x)
qed

text \<open>
  C10, amended. Replacing every character outside \<open>[a-zA-Z0-9_]\<close> by \<open>_\<close> is not
  injective (\<open>foo-bar\<close> and \<open>foo.bar\<close> both become \<open>foo_bar\<close>). When a dependency map has
  two keys with one sanitized name, the generated factory declares that \<open>const\<close>
  name twice in one scope; the function constructor rejects the text, and
  \<open>executeCode\<close> returns a result with an error and no component. No binding
  shadows another: the factory never comes to exist.
\<close>

theorem sanitized_names_collide:
  assumes "transformMultipleFiles pf (codeFiles_of c) deps auto = Returns fc"
    and "d1 \<in> set (map fst deps)" and "d2 \<in> set (map fst deps)"
    and "d1 \<noteq> d2" and "safeName d1 = safeName d2"
  shows "\<not> inj safeName
       \<and> (safeName d1, d1) \<in> set (dependencyVars fc) \<and> (safeName d1, d2) \<in> set (dependencyVars fc)
       \<and> (\<exists>msg. FunctionConstructor en w fc = Throws (syntax_error w msg))
       \<and> (\<exists>r ps'. executeCode pf en c deps ps bypass auto react w = (Returns r, ps')
             \<and> Component r = JNull \<and> error r \<noteq> None)"
proof -
  have vars: "dependencyVars fc = map (\<lambda>dep. (safeName dep, dep)) (map fst deps)"
    using assms(1) by (rule transformMultipleFiles_dependencyVars)
  have names: "map fst (dependencyVars fc) = map safeName (map fst deps)"
    by (simp add: vars comp_def)
  have nd: "\<not> distinct (map fst (dependencyVars fc))"
    unfolding names using assms(2-5) by (rule colliding_not_distinct)
  have in1: "(safeName d1, d1) \<in> set (dependencyVars fc)"
    using assms(2) by (auto simp: vars)
  have in2: "(safeName d1, d2) \<in> set (dependencyVars fc)"
    using assms(3,5) by (auto simp: vars)
  show ?thesis
    using safeName_not_injective in1 in2 FunctionConstructor_redeclared [OF nd]
      executeCode_redeclared [OF assms(1) nd] by blast
qed

lemma two_factory_generated:
  "transformMultipleFiles sample_platform (codeFiles_of (CodeString src_two)) two_deps True =
   Returns two_factory"
  by code_simp

theorem sanitized_names_collide_witness:
  "\<not> inj safeName
   \<and> (''foo_bar'', ''foo-bar'') \<in> set (dependencyVars two_factory)
   \<and> (''foo_bar'', ''foo.bar'') \<in> set (dependencyVars two_factory)
   \<and> (\<exists>msg. FunctionConstructor sample_engine None two_factory =
            Throws (syntax_error None msg))
   \<and> (\<exists>r ps'. executeCode sample_platform sample_engine (CodeString src_two) two_deps [] False True
                  None None = (Returns r, ps')
          \<and> Component r = JNull \<and> error r \<noteq> None)"
  using sanitized_names_collide [of sample_platform "CodeString src_two" two_deps True two_factory
      "''foo-bar''" "''foo.bar''" sample_engine None "[]" False None, OF two_factory_generated]
  by (simp add: two_deps_def safeName_foo_dash safeName_foo_dot)

theorem no_shadowing_counterexample:
  "FunctionConstructor sample_engine None two_factory =
     Throws (Error (redeclared_message ''foo_bar''))
   \<and> fst (executeCode sample_platform sample_engine (CodeString src_two) two_deps [] False True
            None None) =
     Returns \<lparr> Component = JNull, error = Some (redeclared_message ''foo_bar''),
               forbiddenPatterns = False \<rparr>"
  by code_simp

section \<open>The factory and executeCode\<close>





lemma loop_factory_generated:
  "transformMultipleFiles sample_platform (codeFiles_of (CodeString src_loop)) [] True =
   Returns loop_factory"
  by code_simp



















text \<open>
  A dependency map with the key \<open>Map\<close>: the constant \<open>Map\<close> of the generated
  function hides the global, \<open>new Map()\<close> throws ahead of the \<open>try\<close> block, and the
  exception leaves the factory (\<open>executeCode\<close> catches it).
\<close>

lemma hidden_Map_escapes:
  "transformMultipleFiles sample_platform (codeFiles_of (CodeString src_app)) Map_deps True =
     Returns Map_factory
   \<and> FunctionConstructor sample_engine None Map_factory = Returns Map_factory
   \<and> factoryFunction sample_engine None Map_factory host_React Map_deps =
       Throws (Error ''Map is not a constructor'')
   \<and> fst (executeCode sample_platform sample_engine (CodeString src_app) Map_deps
            defaultSecurityPatterns False True None None) =
       Returns \<lparr> Component = JNull, error = Some ''Map is not a constructor'',
                 forbiddenPatterns = False \<rparr>"
  by code_simp


lemma leftpad_passes_check:
  "fst (if False then (None, defaultSecurityPatterns)
        else security_check (codeFiles_of (CodeFiles [leftpad_file])) defaultSecurityPatterns) = None"
  by code_simp








section \<open>The security check\<close>

lemma test_fresh:
  assumes "stateful p \<longrightarrow> lastIndex p = 0"
  shows "fst (test p s) = matches p s"
    and "\<not> matches p s \<Longrightarrow> snd (test p s) = p"
    and "pattern_text (snd (test p s)) = pattern_text p"
  using assms by (auto simp: test_def matches_def split: option.splits)

lemma test_patterns_none:
  assumes "\<forall>p \<in> set ps. stateful p \<longrightarrow> lastIndex p = 0"
    and "\<forall>p \<in> set ps. \<not> matches p s"
  shows "test_patterns ps s = (None, ps)"
  using assms
proof (induction ps)
  case Nil
  then show ?case by simp
next
  case (Cons p ps)
  have f: "stateful p \<longrightarrow> lastIndex p = 0" and n: "\<not> matches p s" using Cons.prems by auto
  have "test p s = (False, p)"
    using test_fresh(1,2) [OF f, of s] n by (metis prod.collapse)
  moreover have "test_patterns ps s = (None, ps)" using Cons by auto
  ultimately show ?case by simp
qed

lemma test_patterns_first:
  assumes "\<forall>p \<in> set (qs @ p # rs). stateful p \<longrightarrow> lastIndex p = 0"
    and "\<forall>q \<in> set qs. \<not> matches q s" and "matches p s"
  shows "fst (test_patterns (qs @ p # rs) s) = Some (pattern_text p)"
  using assms
proof (induction qs)
  case Nil
  have f: "stateful p \<longrightarrow> lastIndex p = 0" using Nil.prems by auto
  obtain p' where t: "test p s = (True, p')"
    using test_fresh(1) [OF f, of s] Nil.prems(3) by (metis prod.collapse)
  have "pattern_text p' = pattern_text p" using test_fresh(3) [OF f, of s] t by simp
  then show ?case using t by simp
next
  case (Cons q qs)
  have f: "stateful q \<longrightarrow> lastIndex q = 0" and n: "\<not> matches q s" using Cons.prems by auto
  have "test q s = (False, q)"
    using test_fresh(1,2) [OF f, of s] n by (metis prod.collapse)
  moreover have "fst (test_patterns (qs @ p # rs) s) = Some (pattern_text p)"
    using Cons by auto
  ultimately show ?case by (auto split: prod.splits)
qed

lemma security_check_first:
  assumes fr: "\<forall>p \<in> set (qs @ p # rs). stateful p \<longrightarrow> lastIndex p = 0"
    and before: "\<forall>g \<in> set pre. \<forall>q \<in> set (qs @ p # rs). \<not> matches q (content g)"
    and here: "\<forall>q \<in> set qs. \<not> matches q (content f)" "matches p (content f)"
  shows "fst (security_check (pre @ f # post) (qs @ p # rs)) =
           Some (forbidden_message (name f) (pattern_text p))"
  using before
proof (induction pre)
  case Nil
  have "fst (test_patterns (qs @ p # rs) (content f)) = Some (pattern_text p)"
    using fr here by (rule test_patterns_first)
  then show ?case by (auto split: prod.splits option.splits)
next
  case (Cons g pre)
  have "test_patterns (qs @ p # rs) (content g) = (None, qs @ p # rs)"
    using fr Cons.prems by (intro test_patterns_none) auto
  then show ?case using Cons by auto
qed

lemma executeCode_forbidden:
  assumes "fst (security_check (codeFiles_of c) ps) = Some msg"
  shows "fst (executeCode pf en c deps ps False auto react w) =
           Returns \<lparr> Component = JNull, error = Some msg, forbiddenPatterns = True \<rparr>"
  using assms by (simp add: executeCode_def executeCode_try_def Let_def)

text \<open>
  C2, the defect. A pattern with the \<open>g\<close> flag keeps the \<open>lastIndex\<close> that a
  successful \<open>test\<close> leaves behind. After a run that was blocked by \<open>/eval\(/g\<close> on
  \<open>eval(1)\<close>, the same pattern object stands at index 5; the next run, on
  \<open>eval(2)\<close>, starts the test there, finds nothing, reports no forbidden pattern
  and transforms and runs the code, although the text matches the pattern.
\<close>

theorem stale_lastIndex_skips_check:
  "fst (executeCode sample_platform sample_engine (CodeString src_eval1) [] [eval_global 0]
          False True None None) =
     Returns \<lparr> Component = JNull,
               error = Some (forbidden_message ''index.tsx'' (pattern_text (eval_global 0))),
               forbiddenPatterns = True \<rparr>
   \<and> map lastIndex (snd (executeCode sample_platform sample_engine (CodeString src_eval1) []
                            [eval_global 0] False True None None)) = [5]
   \<and> list_all (\<lambda>p. matches p src_eval2)
        (snd (executeCode sample_platform sample_engine (CodeString src_eval1) []
                [eval_global 0] False True None None))
   \<and> fst (executeCode sample_platform sample_engine (CodeString src_eval2) []
            (snd (executeCode sample_platform sample_engine (CodeString src_eval1) []
                    [eval_global 0] False True None None))
            False True None None) =
     Returns \<lparr> Component = ErrorComponent (Error (not_a_component sample_engine (JObj []))),
               error = None, forbiddenPatterns = False \<rparr>"
  by code_simp

theorem stale_lastIndex_skips_check_witness:
  "forbiddenPatterns
     (case fst (executeCode sample_platform sample_engine (CodeString src_eval2) []
            (snd (executeCode sample_platform sample_engine (CodeString src_eval1) []
                    [eval_global 0] False True None None))
            False True None None) of
        Returns r \<Rightarrow> r
      | Throws e \<Rightarrow> initialExecutionResult
      | Diverges \<Rightarrow> initialExecutionResult) = False"
  using stale_lastIndex_skips_check by simp

text \<open>
  What the check does guarantee: when no pattern with a \<open>g\<close> or \<open>y\<close> flag carries
  a \<open>lastIndex\<close> from an earlier use, and bypass is not invoked, the first file (in
  file order) whose text matches a pattern, with the first pattern (in pattern
  order) it matches, is reported with \<open>forbiddenPatterns = true\<close> and no component.
  The result does not depend on the platform or the engine: nothing is transformed.
\<close>

theorem fresh_patterns_first_match:
  assumes "\<forall>p \<in> set (qs @ p # rs). stateful p \<longrightarrow> lastIndex p = 0"
    and "\<forall>g \<in> set pre. \<forall>q \<in> set (qs @ p # rs). \<not> matches q (content g)"
    and "\<forall>q \<in> set qs. \<not> matches q (content f)"
    and "matches p (content f)"
  shows "fst (executeCode pf en (CodeFiles (pre @ f # post)) deps (qs @ p # rs) False auto react w) =
           Returns \<lparr> Component = JNull,
                     error = Some (forbidden_message (name f) (pattern_text p)),
                     forbiddenPatterns = True \<rparr>"
proof -
  have "fst (security_check (codeFiles_of (CodeFiles (pre @ f # post))) (qs @ p # rs)) =
          Some (forbidden_message (name f) (pattern_text p))"
    using security_check_first [OF assms] by (simp add: codeFiles_of_def)
  then show ?thesis by (rule executeCode_forbidden)
qed

lemma default_patterns_split:
  "defaultSecurityPatterns =
     [cookie_pattern, window_cookie_pattern] @ eval_pattern
       # [Function_pattern, write_pattern, location_pattern]"
  by (simp add: defaultSecurityPatterns_def)

lemma default_patterns_fresh: "\<forall>p \<in> set defaultSecurityPatterns. stateful p \<longrightarrow> lastIndex p = 0"
  by (simp add: defaultSecurityPatterns_def literal_i_def cookie_pattern_def
        window_cookie_pattern_def eval_pattern_def Function_pattern_def write_pattern_def
        location_pattern_def)

lemma eval1_not_cookie: "\<not> matches cookie_pattern src_eval1"
  by code_simp

lemma eval1_not_window_cookie: "\<not> matches window_cookie_pattern src_eval1"
  by code_simp

lemma eval1_matches_eval: "matches eval_pattern src_eval1"
  by code_simp

lemma eval_pattern_text: "pattern_text eval_pattern = ''/eval'' @ backslash @ ''(/i''"
  by (simp add: eval_pattern_def literal_i_def)

theorem fresh_patterns_first_match_witness:
  "fst (executeCode sample_platform sample_engine
          (CodeFiles [\<lparr> name = ''index.tsx'', content = src_eval1, isEntry = True \<rparr>])
          [] defaultSecurityPatterns False True None None) =
     Returns \<lparr> Component = JNull,
               error = Some (forbidden_message ''index.tsx'' (''/eval'' @ backslash @ ''(/i'')),
               forbiddenPatterns = True \<rparr>"
proof -
  let ?f = "\<lparr> name = ''index.tsx'', content = src_eval1, isEntry = True \<rparr>"
  have fr: "\<forall>p \<in> set ([cookie_pattern, window_cookie_pattern] @ eval_pattern
              # [Function_pattern, write_pattern, location_pattern]).
              stateful p \<longrightarrow> lastIndex p = 0"
    using default_patterns_fresh unfolding default_patterns_split .
  have "fst (executeCode sample_platform sample_engine (CodeFiles ([] @ ?f # [])) []
          ([cookie_pattern, window_cookie_pattern] @ eval_pattern
              # [Function_pattern, write_pattern, location_pattern])
          False True None None) =
        Returns \<lparr> Component = JNull,
                  error = Some (forbidden_message (name ?f) (pattern_text eval_pattern)),
                  forbiddenPatterns = True \<rparr>"
    using fr
  proof (rule fresh_patterns_first_match)
    show "\<forall>g \<in> set []. \<forall>q \<in> set ([cookie_pattern, window_cookie_pattern] @ eval_pattern
              # [Function_pattern, write_pattern, location_pattern]). \<not> matches q (content g)"
      by simp
    show "\<forall>q \<in> set [cookie_pattern, window_cookie_pattern]. \<not> matches q (content ?f)"
      by (simp add: eval1_not_cookie eval1_not_window_cookie)
    show "matches eval_pattern (content ?f)"
      by (simp add: eval1_matches_eval)
  qed
  then show ?thesis
    by (simp add: default_patterns_split eval_pattern_text)
qed

section \<open>Unresolved dependencies\<close>

lemma visit_import_unresolved:
  assumes "specifiers \<noteq> []" "source \<noteq> ''react''" "paths (normalizeFilename source) = None"
    "source \<notin> set allowed"
  shows "visit_import allowed varMap paths ei False source specifiers =
           Throws (Error (module_not_found source))"
  using assms by (simp add: visit_import_def Let_def)

lemma visit_import_keeps_varMap:
  "visit_import allowed varMap paths ei False source specifiers = Returns (nodes, varMap', warned)
   \<Longrightarrow> varMap' = varMap"
  by (auto simp: visit_import_def Let_def split: if_splits)

text \<open>An import without specifiers is left as it is, whatever it names.\<close>

lemma visit_import_side_effect:
  "visit_import allowed varMap paths ei auto source [] =
     Returns ([ImportDeclaration source []], varMap, [])"
  by (simp add: visit_import_def)

lemma traverse_prefix_Throws:
  assumes "\<forall>e. traverse pf allowed paths ei False pre varMap \<noteq> Throws e"
    and "traverse pf allowed paths ei False rest varMap = Throws err"
  shows "traverse pf allowed paths ei False (pre @ rest) varMap = Throws err"
  using assms(1)
proof (induction pre)
  case Nil
  show ?case using assms(2) by simp
next
  case (Cons s pre)
  show ?case
  proof (cases "is_import s")
    case True
    then obtain src specs where s: "s = ImportDeclaration src specs" by (cases s) auto
    obtain nodes varMap' warned where
      v: "visit_import allowed varMap paths ei False src specs = Returns (nodes, varMap', warned)"
      using Cons.prems visit_import_not_Diverges [of allowed varMap paths ei False src specs]
      by (cases "visit_import allowed varMap paths ei False src specs") (auto simp: s)
    then have same: "varMap' = varMap" by (rule visit_import_keeps_varMap)
    have "\<forall>e. traverse pf allowed paths ei False pre varMap \<noteq> Throws e"
      using Cons.prems v by (auto simp: s same)
    from Cons.IH [OF this] show ?thesis using v by (simp add: s same)
  next
    case False
    then have step: "\<And>tl. traverse pf allowed paths ei False (s # tl) varMap =
        (case visit_statement pf s of
           Throws e \<Rightarrow> Throws e
         | Diverges \<Rightarrow> Diverges
         | Returns nodes \<Rightarrow>
             (case traverse pf allowed paths ei False tl varMap of
                Throws e \<Rightarrow> Throws e
              | Diverges \<Rightarrow> Diverges
              | Returns (out, warned') \<Rightarrow> Returns (nodes @ out, warned')))"
      by (cases s) auto
    obtain nodes where v: "visit_statement pf s = Returns nodes"
      using Cons.prems visit_statement_not_Diverges [of pf s]
      by (cases "visit_statement pf s") (auto simp: step)
    have "\<forall>e. traverse pf allowed paths ei False pre varMap \<noteq> Throws e"
      using Cons.prems v by (auto simp: step)
    from Cons.IH [OF this] show ?thesis using v by (simp add: step)
  qed
qed

lemma elide_imports_append:
  "elide_imports typeOnly (xs @ ys) = elide_imports typeOnly xs @ elide_imports typeOnly ys"
proof (induction xs)
  case Nil
  show ?case by simp
next
  case (Cons s xs)
  then show ?case by (cases s) (auto split: list.splits)
qed

lemma elide_imports_kept:
  assumes "\<exists>s \<in> set specifiers. \<not> typeOnly (local_name s)"
  shows "\<exists>kept. kept \<noteq> [] \<and>
     elide_imports typeOnly (ImportDeclaration source specifiers # post) =
       ImportDeclaration source kept # elide_imports typeOnly post"
proof -
  have ne: "specifiers \<noteq> []" using assms by auto
  have "filter (\<lambda>s. \<not> typeOnly (local_name s)) specifiers \<noteq> []"
    using assms by (auto simp: filter_empty_conv)
  then show ?thesis using ne by (auto split: list.splits)
qed

lemma transform_file_unresolved:
  assumes "babel_parse pf (processedInput pf file) =
             Inr (pre @ ImportDeclaration source specifiers # post)"
    and "\<exists>s \<in> set specifiers. \<not> isImportTypeOnly pf (processedInput pf file) (local_name s)"
    and "\<forall>e. traverse pf (map fst deps) (normalizedModulePaths files) ei False
                (elide_imports (isImportTypeOnly pf (processedInput pf file)) pre)
                (dependencyVarMap deps) \<noteq> Throws e"
    and "source \<noteq> ''react''"
      "normalizedModulePaths files (normalizeFilename source) = None"
      "source \<notin> set (map fst deps)"
  shows "transform_file pf files deps ei False file =
           Throws (Error (babel_label pf @ module_not_found source))"
proof -
  let ?typeOnly = "isImportTypeOnly pf (processedInput pf file)"
  obtain kept where kept: "kept \<noteq> []"
    "elide_imports ?typeOnly (ImportDeclaration source specifiers # post) =
       ImportDeclaration source kept # elide_imports ?typeOnly post"
    using elide_imports_kept [OF assms(2)] by blast
  have "traverse pf (map fst deps) (normalizedModulePaths files) ei False
          (ImportDeclaration source kept # elide_imports ?typeOnly post) (dependencyVarMap deps) =
        Throws (Error (module_not_found source))"
    using visit_import_unresolved [of kept source "normalizedModulePaths files" "map fst deps",
        OF kept(1) assms(4,5,6)] by simp
  with assms(3) have "traverse pf (map fst deps) (normalizedModulePaths files) ei False
          (elide_imports ?typeOnly pre @ ImportDeclaration source kept # elide_imports ?typeOnly post)
          (dependencyVarMap deps) =
        Throws (Error (module_not_found source))"
    by (rule traverse_prefix_Throws)
  then have "traverse pf (map fst deps) (normalizedModulePaths files) ei False
          (elide_imports ?typeOnly (pre @ ImportDeclaration source specifiers # post))
          (dependencyVarMap deps) =
        Throws (Error (module_not_found source))"
    by (simp only: elide_imports_append kept(2))
  then show ?thesis
    by (simp add: transform_file_def transform_def relabel_def Let_def assms(1))
qed

lemma transform_all_Throws:
  assumes "file \<in> set files" and "transform_file pf fs deps ei auto file = Throws e"
  shows "\<exists>e'. transform_all pf fs deps ei auto files acc = Throws e'"
  using assms(1)
proof (induction files arbitrary: acc)
  case Nil
  then show ?case by simp
next
  case (Cons f files)
  show ?case
  proof (cases "transform_file pf fs deps ei auto f")
    case (Returns r)
    then have "f \<noteq> file" using assms(2) by auto
    with Cons.prems have "file \<in> set files" by auto
    from Cons.IH [OF this] show ?thesis using Returns by (auto split: prod.splits)
  next
    case (Throws e')
    then show ?thesis by simp
  next
    case Diverges
    then show ?thesis using transform_file_not_Diverges by blast
  qed
qed

lemma transform_all_prefix_Throws:
  assumes "\<forall>g \<in> set before. \<forall>e. transform_file pf fs deps ei auto g \<noteq> Throws e"
    and "transform_file pf fs deps ei auto file = Throws err"
  shows "transform_all pf fs deps ei auto (before @ file # rest) acc = Throws err"
  using assms(1)
proof (induction before arbitrary: acc)
  case Nil
  show ?case using assms(2) by simp
next
  case (Cons g before)
  obtain m warned where "transform_file pf fs deps ei auto g = Returns (m, warned)"
    using Cons.prems transform_file_not_Diverges [of pf fs deps ei auto g]
    by (cases "transform_file pf fs deps ei auto g") auto
  then show ?case using Cons by simp
qed

lemma transformMultipleFiles_Throws:
  assumes "file \<in> set files"
    and "transform_file pf files deps (first_pass pf files) auto file = Throws e"
  shows "\<exists>e'. transformMultipleFiles pf files deps auto = Throws e'"
  using transform_all_Throws [OF assms, of "[]"]
  by (auto simp: transformMultipleFiles_def)

lemma executeCode_transform_Throws:
  assumes "fst (if bypass then (None, ps) else security_check (codeFiles_of c) ps) = None"
    and "transformMultipleFiles pf (codeFiles_of c) deps auto = Throws e"
  shows "fst (executeCode pf en c deps ps bypass auto react w) =
           Returns \<lparr> Component = JNull, error = Some (caught_message e), forbiddenPatterns = False \<rparr>"
  using assms by (auto simp: executeCode_def executeCode_try_def Let_def)

lemma resolution_effect_disabled:
  "\<not> autoResolvePackage cfg \<Longrightarrow> fst (resolution_effect pf cfg st r) = []
     \<and> snd (snd (resolution_effect pf cfg st r)) = r"
  by (simp add: resolution_effect_def)

text \<open>
  C5, amended. With automatic resolution off, let a file parse, and let it have an
  import declaration, with a specifier whose binding the file uses as a value, of
  a package that is neither \<open>react\<close> nor a local file nor a key of the dependency
  map, the statements before it being rewritten without an error. Then the
  transformation of the file throws an error whose message is Babel's label
  followed by \<open>Module not found: <package>. ...\<close>: it names the package, not the
  file. The transformation of the source set fails, with this very error when no
  earlier file fails; \<open>executeCode\<close>, unless the security check blocks the run,
  returns \<open>{ Component: null, error: message, forbiddenPatterns: false }\<close> with the
  message of that failure; and the resolution effect requests nothing and leaves
  the resolver as it was.
\<close>

theorem unresolved_dependency_fails:
  assumes "babel_parse pf (processedInput pf file) =
             Inr (pre @ ImportDeclaration source specifiers # post)"
    and "\<exists>s \<in> set specifiers. \<not> isImportTypeOnly pf (processedInput pf file) (local_name s)"
    and "\<forall>e. traverse pf (map fst deps) (normalizedModulePaths files) (first_pass pf files) False
                (elide_imports (isImportTypeOnly pf (processedInput pf file)) pre)
                (dependencyVarMap deps) \<noteq> Throws e"
    and "source \<noteq> ''react''"
    and "normalizedModulePaths files (normalizeFilename source) = None"
    and "source \<notin> set (map fst deps)"
    and "files = before @ file # rest"
    and "\<not> autoResolvePackage cfg"
  shows "transform_file pf files deps (first_pass pf files) False file =
           Throws (Error (babel_label pf @ module_not_found source))
       \<and> (\<exists>e. transformMultipleFiles pf files deps False = Throws e)
       \<and> ((\<forall>g \<in> set before. \<forall>e. transform_file pf files deps (first_pass pf files) False g \<noteq> Throws e)
            \<longrightarrow> transformMultipleFiles pf files deps False =
                  Throws (Error (babel_label pf @ module_not_found source)))
       \<and> (fst (if bypass then (None, ps) else security_check files ps) = None \<longrightarrow>
            (\<exists>e. transformMultipleFiles pf files deps False = Throws e
               \<and> fst (executeCode pf en (CodeFiles files) deps ps bypass False react w) =
                   Returns \<lparr> Component = JNull, error = Some (caught_message e),
                             forbiddenPatterns = False \<rparr>))
       \<and> (fst (if bypass then (None, ps) else security_check files ps) = None
            \<and> (\<forall>g \<in> set before. \<forall>e. transform_file pf files deps (first_pass pf files) False g
                   \<noteq> Throws e) \<longrightarrow>
            fst (executeCode pf en (CodeFiles files) deps ps bypass False react w) =
              Returns \<lparr> Component = JNull, error = Some (babel_label pf @ module_not_found source),
                        forbiddenPatterns = False \<rparr>)
       \<and> fst (resolution_effect pf cfg st r) = []
       \<and> snd (snd (resolution_effect pf cfg st r)) = r"
proof -
  let ?err = "Error (babel_label pf @ module_not_found source)"
  let ?open = "fst (if bypass then (None, ps) else security_check files ps) = None"
  let ?quiet = "\<forall>g \<in> set before. \<forall>e. transform_file pf files deps (first_pass pf files) False g
                   \<noteq> Throws e"
  have tf: "transform_file pf files deps (first_pass pf files) False file = Throws ?err"
    using assms(1-6) by (rule transform_file_unresolved)
  have mem: "file \<in> set files" by (simp add: assms(7))
  obtain e where e: "transformMultipleFiles pf files deps False = Throws e"
    using transformMultipleFiles_Throws [OF mem tf] by blast
  have first: "?quiet \<longrightarrow> transformMultipleFiles pf files deps False = Throws ?err"
  proof
    assume ?quiet
    then have "transform_all pf files deps (first_pass pf files) False (before @ file # rest) [] =
        Throws ?err"
      using tf by (rule transform_all_prefix_Throws)
    then show "transformMultipleFiles pf files deps False = Throws ?err"
      by (simp add: transformMultipleFiles_def assms(7) [symmetric])
  qed
  have cf: "codeFiles_of (CodeFiles files) = files" by (simp add: codeFiles_of_def)
  have run: "?open \<longrightarrow> (\<exists>e. transformMultipleFiles pf files deps False = Throws e
               \<and> fst (executeCode pf en (CodeFiles files) deps ps bypass False react w) =
                   Returns \<lparr> Component = JNull, error = Some (caught_message e),
                             forbiddenPatterns = False \<rparr>)"
  proof
    assume op: ?open
    have op': "fst (if bypass then (None, ps)
                    else security_check (codeFiles_of (CodeFiles files)) ps) = None"
      using op by (simp only: cf)
    have e': "transformMultipleFiles pf (codeFiles_of (CodeFiles files)) deps False = Throws e"
      using e by (simp only: cf)
    have "fst (executeCode pf en (CodeFiles files) deps ps bypass False react w) =
        Returns \<lparr> Component = JNull, error = Some (caught_message e), forbiddenPatterns = False \<rparr>"
      using op' e' by (rule executeCode_transform_Throws)
    with e show "\<exists>e. transformMultipleFiles pf files deps False = Throws e
               \<and> fst (executeCode pf en (CodeFiles files) deps ps bypass False react w) =
                   Returns \<lparr> Component = JNull, error = Some (caught_message e),
                             forbiddenPatterns = False \<rparr>"
      by blast
  qed
  have exact: "?open \<and> ?quiet \<longrightarrow>
      fst (executeCode pf en (CodeFiles files) deps ps bypass False react w) =
        Returns \<lparr> Component = JNull, error = Some (babel_label pf @ module_not_found source),
                  forbiddenPatterns = False \<rparr>"
  proof
    assume h: "?open \<and> ?quiet"
    then have t: "transformMultipleFiles pf files deps False = Throws ?err" using first by blast
    have op': "fst (if bypass then (None, ps)
                    else security_check (codeFiles_of (CodeFiles files)) ps) = None"
      using h by (simp only: cf)
    have t': "transformMultipleFiles pf (codeFiles_of (CodeFiles files)) deps False = Throws ?err"
      using t by (simp only: cf)
    have "fst (executeCode pf en (CodeFiles files) deps ps bypass False react w) =
        Returns \<lparr> Component = JNull, error = Some (caught_message ?err), forbiddenPatterns = False \<rparr>"
      using op' t' by (rule executeCode_transform_Throws)
    then show "fst (executeCode pf en (CodeFiles files) deps ps bypass False react w) =
        Returns \<lparr> Component = JNull, error = Some (babel_label pf @ module_not_found source),
                  forbiddenPatterns = False \<rparr>"
      by (simp add: caught_message_def)
  qed
  have ex: "\<exists>e. transformMultipleFiles pf files deps False = Throws e" using e by blast
  note eff = resolution_effect_disabled [OF assms(8), of pf st r]
  show ?thesis
    by (rule conjI [OF tf conjI [OF ex conjI [OF first conjI [OF run conjI [OF exact eff]]]]])
qed

lemma leftpad_parse:
  "babel_parse sample_platform (processedInput sample_platform leftpad_file) =
   Inr ([] @ ImportDeclaration ''left-pad'' [ImportDefaultSpecifier ''p'']
          # [Other ''p();''])"
  by code_simp

lemma leftpad_used:
  "\<exists>s \<in> set [ImportDefaultSpecifier ''p''].
     \<not> isImportTypeOnly sample_platform (processedInput sample_platform leftpad_file) (local_name s)"
  by code_simp

lemma leftpad_not_local:
  "normalizedModulePaths [leftpad_file] (normalizeFilename ''left-pad'') = None"
  by code_simp

lemma css_parse:
  "babel_parse sample_platform (processedInput sample_platform css_file) =
   Inr ([ImportDeclaration ''./s.css'' []] @ ImportDeclaration ''left-pad'' [ImportDefaultSpecifier ''p'']
          # [Other ''p();''])"
  by code_simp

lemma css_used:
  "\<exists>s \<in> set [ImportDefaultSpecifier ''p''].
     \<not> isImportTypeOnly sample_platform (processedInput sample_platform css_file) (local_name s)"
  by code_simp

lemma css_not_local:
  "normalizedModulePaths [css_file] (normalizeFilename ''left-pad'') = None"
  by code_simp

lemma css_prefix_quiet:
  "\<forall>e. traverse sample_platform (map fst []) (normalizedModulePaths [css_file])
         (first_pass sample_platform [css_file]) False
         (elide_imports (isImportTypeOnly sample_platform (processedInput sample_platform css_file))
            [ImportDeclaration ''./s.css'' []])
         (dependencyVarMap []) \<noteq> Throws e"
  by (simp add: visit_import_side_effect)

theorem unresolved_dependency_fails_witness:
  "transformMultipleFiles sample_platform [leftpad_file] [] False =
     Throws (Error (''unknown file: '' @ module_not_found ''left-pad''))
   \<and> transformMultipleFiles sample_platform [css_file] [] False =
     Throws (Error (''unknown file: '' @ module_not_found ''left-pad''))
   \<and> fst (executeCode sample_platform sample_engine (CodeFiles [leftpad_file]) []
            defaultSecurityPatterns False False None None) =
       Returns \<lparr> Component = JNull,
                 error = Some (''unknown file: '' @ module_not_found ''left-pad''),
                 forbiddenPatterns = False \<rparr>
   \<and> fst (resolution_effect sample_platform (failing_config False)
            (initial_executor (failing_config False) defaultSecurityPatterns) initial_resolver) = []"
proof -
  have a: "\<not> autoResolvePackage (failing_config False)" by (simp add: failing_config_def)
  have b: "[leftpad_file] = [] @ leftpad_file # []" by simp
  have c: "\<forall>e. traverse sample_platform (map fst []) (normalizedModulePaths [leftpad_file])
             (first_pass sample_platform [leftpad_file]) False
             (elide_imports (isImportTypeOnly sample_platform
                               (processedInput sample_platform leftpad_file)) [])
             (dependencyVarMap []) \<noteq> Throws e" by simp
  have d: "''left-pad'' \<noteq> ''react''" "''left-pad'' \<notin> set (map fst [])" by simp_all
  have op: "fst (if False then (None, defaultSecurityPatterns)
                 else security_check [leftpad_file] defaultSecurityPatterns) = None"
    using leftpad_passes_check by (simp add: codeFiles_of_def)
  note t = unresolved_dependency_fails [OF leftpad_parse leftpad_used c d(1) leftpad_not_local d(2) b a,
      of False defaultSecurityPatterns sample_engine None None
         "initial_executor (failing_config False) defaultSecurityPatterns" initial_resolver]
  have quiet: "\<forall>g \<in> set []. \<forall>e. transform_file sample_platform [leftpad_file] []
      (first_pass sample_platform [leftpad_file]) False g \<noteq> Throws e" by simp
  from t [THEN conjunct2, THEN conjunct2, THEN conjunct1] quiet
  have x: "transformMultipleFiles sample_platform [leftpad_file] [] False =
     Throws (Error (babel_label sample_platform @ module_not_found ''left-pad''))" by (rule mp)
  from t [THEN conjunct2, THEN conjunct2, THEN conjunct2, THEN conjunct2, THEN conjunct1] op quiet
  have y: "fst (executeCode sample_platform sample_engine (CodeFiles [leftpad_file]) []
            defaultSecurityPatterns False False None None) =
       Returns \<lparr> Component = JNull,
                 error = Some (babel_label sample_platform @ module_not_found ''left-pad''),
                 forbiddenPatterns = False \<rparr>" by blast
  from t [THEN conjunct2, THEN conjunct2, THEN conjunct2, THEN conjunct2, THEN conjunct2,
      THEN conjunct1]
  have z: "fst (resolution_effect sample_platform (failing_config False)
            (initial_executor (failing_config False) defaultSecurityPatterns) initial_resolver) = []" .
  have b': "[css_file] = [] @ css_file # []" by simp
  note t' = unresolved_dependency_fails [OF css_parse css_used css_prefix_quiet d(1) css_not_local
      d(2) b' a, of False defaultSecurityPatterns sample_engine None None
         "initial_executor (failing_config False) defaultSecurityPatterns" initial_resolver]
  have quiet': "\<forall>g \<in> set []. \<forall>e. transform_file sample_platform [css_file] []
      (first_pass sample_platform [css_file]) False g \<noteq> Throws e" by simp
  from t' [THEN conjunct2, THEN conjunct2, THEN conjunct1] quiet'
  have x': "transformMultipleFiles sample_platform [css_file] [] False =
     Throws (Error (babel_label sample_platform @ module_not_found ''left-pad''))" by (rule mp)
  have l: "babel_label sample_platform = ''unknown file: ''" by (simp add: sample_platform_def)
  from x x' y z show ?thesis by (simp only: l simp_thms)
qed

theorem error_omits_file_name_counterexample:
  "fst (executeCode sample_platform sample_engine (CodeFiles [leftpad_file]) []
          defaultSecurityPatterns False False None None) =
     Returns \<lparr> Component = JNull,
               error = Some (''unknown file: '' @ module_not_found ''left-pad''),
               forbiddenPatterns = False \<rparr>
   \<and> str_includes (''unknown file: '' @ module_not_found ''left-pad'') ''left-pad''
   \<and> \<not> str_includes (''unknown file: '' @ module_not_found ''left-pad'') (name leftpad_file)"
  by code_simp

text \<open>
  An import that nothing uses does not fail in this way: the TypeScript preset
  removes it before the plugin visits it, and appends \<open>export {};\<close> to the module.
  The transformation returns a factory, whose text the function constructor
  rejects; the error object of a sandbox window is not an \<open>Error\<close> of the host.
\<close>

lemma unused_import_is_removed:
  "transformMultipleFiles sample_platform [unused_file] [] False = Returns unused_factory
   \<and> fst (executeCode sample_platform sample_engine (CodeFiles [unused_file]) []
            defaultSecurityPatterns False False None None) =
       Returns \<lparr> Component = JNull, error = Some unexpected_export, forbiddenPatterns = False \<rparr>
   \<and> fst (executeCode sample_platform sample_engine (CodeFiles [unused_file]) []
            defaultSecurityPatterns False False (Some host_React) (Some 1)) =
       Returns \<lparr> Component = JNull, error = Some ''An unknown error occurred'',
                 forbiddenPatterns = False \<rparr>"
  by code_simp

section \<open>The onError callback\<close>

lemma execution_effect_keeps_onError_calls:
  assumes "execution_effect pf en cfg st = Returns st'"
  shows "onError_calls st' = onError_calls st"
proof -
  have nt: "\<And>c deps ps bypass auto react w e.
      fst (executeCode pf en c deps ps bypass auto react w) \<noteq> Throws e"
    by (rule executeCode_never_throws)
  show ?thesis
  proof (cases "sandbox cfg")
    case True
    show ?thesis
    proof (cases "contentWindow st")
      case None
      with assms True show ?thesis
        by (auto simp: execution_effect_def split: if_splits)
    next
      case (Some sandboxWindow)
      let ?react = "if truthy (sandbox_React st) then sandbox_React st else host_React"
      obtain res ps where run: "executeCode pf en (code cfg) (resolvedDependencies st)
          (securityPatterns st) False (autoResolvePackage cfg) (Some ?react) (Some sandboxWindow)
          = (res, ps)" by fastforce
      have "\<And>e. res \<noteq> Throws e" using nt [of "code cfg" "resolvedDependencies st"
          "securityPatterns st" False "autoResolvePackage cfg" "Some ?react" "Some sandboxWindow"] run
        by simp
      with assms True Some run show ?thesis
        by (cases res) (auto simp: execution_effect_def effect_done_def Let_def split: if_splits)
    qed
  next
    case False
    obtain res ps where run: "executeCode pf en (code cfg) (resolvedDependencies st)
        (securityPatterns st) False (autoResolvePackage cfg) None None = (res, ps)" by fastforce
    have "\<And>e. res \<noteq> Throws e" using nt [of "code cfg" "resolvedDependencies st"
        "securityPatterns st" False "autoResolvePackage cfg" None None] run by simp
    with assms False run show ?thesis
      by (cases res) (auto simp: execution_effect_def effect_done_def Let_def split: if_splits)
  qed
qed

text \<open>
  C7, the defect. The code of \<open>failing_config\<close> cannot be transformed (an
  unresolved dependency, with automatic resolution off). In the inline realm and
  in the sandbox alike the effect shows the error in \<open>executionResult\<close> and never
  calls the \<open>onError\<close> callback that the configuration gives: \<open>executeCode\<close> has
  caught the error itself, so the \<open>catch\<close> block of the effect, which would call
  \<open>onError\<close>, is not reached.
\<close>

theorem onError_not_called:
  "(case execution_effect sample_platform sample_engine (failing_config False)
           (initial_executor (failing_config False) defaultSecurityPatterns) of
      Returns st \<Rightarrow>
        executionResult st =
          \<lparr> Component = JNull,
            error = Some (''unknown file: '' @ module_not_found ''left-pad''),
            forbiddenPatterns = False \<rparr>
        \<and> onError_calls st = []
    | Throws e \<Rightarrow> False
    | Diverges \<Rightarrow> False)
   \<and> (case execution_effect sample_platform sample_engine (failing_config True)
           (loaded_executor (failing_config True) defaultSecurityPatterns) of
      Returns st \<Rightarrow>
        executionResult st =
          \<lparr> Component = JNull,
            error = Some (''unknown file: '' @ module_not_found ''left-pad''),
            forbiddenPatterns = False \<rparr>
        \<and> onError_calls st = []
    | Throws e \<Rightarrow> False
    | Diverges \<Rightarrow> False)
   \<and> onError (failing_config False) \<and> onError (failing_config True)"
  by code_simp

theorem onError_not_called_witness:
  "execution_effect sample_platform sample_engine (failing_config False)
     (initial_executor (failing_config False) defaultSecurityPatterns) \<noteq> Diverges"
  using onError_not_called
  by (cases "execution_effect sample_platform sample_engine (failing_config False)
        (initial_executor (failing_config False) defaultSecurityPatterns)") simp_all

section \<open>The two passes of transformMultipleFiles\<close>











section \<open>The CDN resolver: caches, coalescing and the fallback\<close>

lemma realm_of_cases: "realm_of t = None \<or> (\<exists>w. t = Some w \<and> w \<noteq> host_window \<and> realm_of t = Some w)"
  by (cases t) (auto simp: realm_of_def is_host_def)

lemma cache_of_realm: "realm_of t = realm_of t' \<Longrightarrow> cache_of s t = cache_of s t'"
  by (cases t; cases t')
     (auto simp: cache_of_def getCache_def realm_of_def is_host_def split: option.splits if_splits)

lemma cache_of_getCache [simp]: "cache_of (snd (getCache t s)) t' = cache_of s t'"
  by (cases t; cases t')
     (auto simp: cache_of_def getCache_def split: option.splits)

lemma fst_getCache: "fst (getCache t s) = cache_of s t"
  by (simp add: cache_of_def)

lemma promises_getCache [simp]: "promises (snd (getCache t s)) = promises s"
  by (auto simp: getCache_def split: option.splits)

lemma fetches_getCache [simp]: "fetches (snd (getCache t s)) = fetches s"
  by (auto simp: getCache_def split: option.splits)

lemma cache_of_cache_set:
  "cache_of (cache_set t pkg p s) t' =
     (if realm_of t' = realm_of t then (cache_of s t')(pkg \<mapsto> p) else cache_of s t')"
  by (cases t; cases t')
     (auto simp: cache_of_def getCache_def cache_set_def realm_of_def is_host_def
           split: option.splits)

lemma promises_cache_set [simp]: "promises (cache_set t pkg p s) = promises s"
  by (auto simp: cache_set_def split: option.splits)

lemma fetches_cache_set [simp]: "fetches (cache_set t pkg p s) = fetches s"
  by (auto simp: cache_set_def split: option.splits)

lemma cache_of_promises_update [simp]: "cache_of (s\<lparr>promises := ps\<rparr>) t = cache_of s t"
  by (auto simp: cache_of_def getCache_def split: option.splits)

lemma cache_of_fetches_update [simp]: "cache_of (s\<lparr>fetches := fs\<rparr>) t = cache_of s t"
  by (auto simp: cache_of_def getCache_def split: option.splits)

lemma getCache_pair: "getCache t s = (cache_of s t, snd (getCache t s))"
  by (simp add: cache_of_def)

lemma resolve_hit:
  assumes "cache_of s t pkg = Some c"
  shows "resolvePackageFromCDN pkg t s =
           (length (promises s), (snd (getCache t s))\<lparr>promises := promises s @ [Adopted c]\<rparr>)"
  unfolding resolvePackageFromCDN_def
  by (subst getCache_pair) (simp add: assms new_promise_def)

lemma resolve_miss:
  assumes "cache_of s t pkg = None"
  shows "resolvePackageFromCDN pkg t s =
           (Suc (length (promises s)),
            (cache_set t pkg (length (promises s))
               ((snd (getCache t s))\<lparr>fetches := fetches s @ [(t, cdnUrl pkg)],
                                      promises := promises s @ [Resolution pkg t AwaitingPrimary]\<rparr>))
              \<lparr>promises := promises s @ [Resolution pkg t AwaitingPrimary,
                                          Adopted (length (promises s))]\<rparr>)"
  unfolding resolvePackageFromCDN_def
  by (subst getCache_pair) (simp add: assms new_promise_def Let_def)


lemma resolve_hit_view:
  assumes "cache_of s t pkg = Some c"
  shows "promises (snd (resolvePackageFromCDN pkg t s)) = promises s @ [Adopted c]"
    and "fetches (snd (resolvePackageFromCDN pkg t s)) = fetches s"
    and "cache_of (snd (resolvePackageFromCDN pkg t s)) t' = cache_of s t'"
  by (simp_all add: resolve_hit [OF assms])

lemma resolve_miss_view:
  assumes "cache_of s t pkg = None"
  shows "promises (snd (resolvePackageFromCDN pkg t s)) =
           promises s @ [Resolution pkg t AwaitingPrimary, Adopted (length (promises s))]"
    and "fetches (snd (resolvePackageFromCDN pkg t s)) = fetches s @ [(t, cdnUrl pkg)]"
    and "cache_of (snd (resolvePackageFromCDN pkg t s)) t' =
           (if realm_of t' = realm_of t then (cache_of s t')(pkg \<mapsto> length (promises s))
            else cache_of s t')"
  by (simp_all add: resolve_miss [OF assms] cache_of_cache_set)

lemma cache_of_settle [simp]: "cache_of (settle q r s) t = cache_of s t"
  by (auto simp: settle_def split: promise.splits phase.splits sum.splits)

lemma length_promises_settle [simp]: "length (promises (settle q r s)) = length (promises s)"
  by (auto simp: settle_def split: promise.splits phase.splits sum.splits)

lemma settle_keeps_resolution:
  assumes "p < length (promises s)" and "promises s ! p = Resolution pkg t ph"
  shows "\<exists>ph'. promises (settle q r s) ! p = Resolution pkg t ph'"
  using assms
  by (cases "p = q") (auto simp: settle_def split: promise.splits phase.splits sum.splits)

lemma settle_keeps_adopted:
  assumes "p < length (promises s)" and "promises s ! p = Adopted c"
  shows "promises (settle q r s) ! p = Adopted c"
  using assms
  by (cases "p = q") (auto simp: settle_def split: promise.splits phase.splits sum.splits)

lemma settle_resolution_before:
  assumes "p < length (promises s)" and "promises (settle q r s) ! p = Resolution pkg t ph'"
  shows "\<exists>ph. promises s ! p = Resolution pkg t ph"
proof (cases "promises s ! p")
  case (Resolution pkg0 t0 ph0)
  from settle_keeps_resolution [OF assms(1) this, of q r] assms(2) show ?thesis
    using Resolution by auto
next
  case (Adopted c)
  from settle_keeps_adopted [OF assms(1) this, of q r] assms(2) show ?thesis by simp
qed

lemma cache_of_clear [simp]: "cache_of (clearCDNCache s) t = Map.empty"
  by (cases t) (auto simp: cache_of_def getCache_def clearCDNCache_def)

lemma promises_clear [simp]: "promises (clearCDNCache s) = promises s"
  by (simp add: clearCDNCache_def)

lemma fetches_clear [simp]: "fetches (clearCDNCache s) = fetches s"
  by (simp add: clearCDNCache_def)

lemma cache_of_initial [simp]: "cache_of initial_resolver t = Map.empty"
  by (cases t) (auto simp: cache_of_def getCache_def initial_resolver_def)

lemma run_events_snoc [simp]: "run_events (events @ [e]) s = apply_event (run_events events s) e"
  by (simp add: run_events_def)

lemma run_events_Nil [simp]: "run_events [] s = s"
  by (simp add: run_events_def)

text \<open>Every cached promise is a resolution promise of its package, made for the realm of its cache.\<close>

lemma cached_promise_origin:
  "cache_of (run_events events initial_resolver) t pkg = Some p \<Longrightarrow>
   p < length (promises (run_events events initial_resolver))
   \<and> (\<exists>t' ph. promises (run_events events initial_resolver) ! p = Resolution pkg t' ph
          \<and> realm_of t' = realm_of t)"
proof (induction events arbitrary: t pkg p rule: rev_induct)
  case Nil
  then show ?case by simp
next
  case (snoc e events)
  let ?s = "run_events events initial_resolver"
  show ?case
  proof (cases e)
    case (Resolve pkg' t')
    show ?thesis
    proof (cases "cache_of ?s t' pkg'")
      case None
      note view = resolve_miss_view [OF None]
      show ?thesis
      proof (cases "realm_of t = realm_of t' \<and> pkg = pkg'")
        case True
        with snoc.prems Resolve have "p = length (promises ?s)"
          by (simp add: view(3))
        then show ?thesis using True Resolve by (simp add: view(1) nth_append)
      next
        case False
        with snoc.prems Resolve have "cache_of ?s t pkg = Some p"
          by (auto simp: view(3) split: if_splits)
        from snoc.IH [OF this] show ?thesis using Resolve by (auto simp: view(1) nth_append)
      qed
    next
      case (Some c)
      note view = resolve_hit_view [OF Some]
      from snoc.prems Resolve have "cache_of ?s t pkg = Some p" by (simp add: view(3))
      from snoc.IH [OF this] show ?thesis using Resolve by (auto simp: view(1) nth_append)
    qed
  next
    case (Settle q r)
    with snoc.prems have "cache_of ?s t pkg = Some p" by simp
    from snoc.IH [OF this] obtain t' ph where
      "p < length (promises ?s)" "promises ?s ! p = Resolution pkg t' ph" "realm_of t' = realm_of t"
      by blast
    then show ?thesis using Settle settle_keeps_resolution [of p ?s pkg t' ph q r] by auto
  next
    case Clear
    with snoc.prems show ?thesis by simp
  qed
qed

lemma cdnUrl_eq [simp]: "cdnUrl a = cdnUrl b \<longleftrightarrow> a = b"
  by (simp add: cdnUrl_def)

lemma fallbackUrl_eq [simp]: "fallbackUrl a = fallbackUrl b \<longleftrightarrow> a = b"
  by (simp add: fallbackUrl_def)

lemma cdnUrl_not_fallbackUrl [simp]: "cdnUrl a \<noteq> fallbackUrl b" "fallbackUrl b \<noteq> cdnUrl a"
  by (simp_all add: cdnUrl_def fallbackUrl_def)

lemma fetch_count_same: "fetches s' = fetches s \<Longrightarrow> fetch_count s' r url = fetch_count s r url"
  by (simp add: fetch_count_def)

lemma fetch_count_snoc:
  "fetches s' = fetches s @ [(t, u)] \<Longrightarrow>
   fetch_count s' r url = fetch_count s r url + (if realm_of t = r \<and> u = url then 1 else 0)"
  by (simp add: fetch_count_def)

lemma fetch_count_initial [simp]: "fetch_count initial_resolver r url = 0"
  by (simp add: fetch_count_def initial_resolver_def)

lemma promises_initial [simp]: "promises initial_resolver = []"
  by (simp add: initial_resolver_def)

text \<open>What a settled import does to the promises and to the fetches.\<close>

lemma settle_cases:
  "(fetches (settle q r s) = fetches s
      \<and> (\<forall>p pkg t. p < length (promises s) \<longrightarrow> promises s ! p \<noteq> Resolution pkg t AwaitingPrimary \<longrightarrow>
             promises (settle q r s) ! p \<noteq> Resolution pkg t AwaitingPrimary)
      \<and> (\<forall>p pkg t. p < length (promises s) \<longrightarrow>
             promises (settle q r s) ! p = Resolution pkg t AwaitingPrimary \<longrightarrow>
             promises s ! p = Resolution pkg t AwaitingPrimary))
   \<or> (\<exists>pkg t e. q < length (promises s) \<and> promises s ! q = Resolution pkg t AwaitingPrimary
         \<and> promises (settle q r s) = (promises s)[q := Resolution pkg t (AwaitingFallback e)]
         \<and> fetches (settle q r s) = fetches s @ [(t, fallbackUrl pkg)])"
proof (cases "q < length (promises s)")
  case False
  then show ?thesis by (simp add: settle_def)
next
  case True
  show ?thesis
  proof (cases "promises s ! q")
    case (Adopted c)
    with True show ?thesis by (simp add: settle_def)
  next
    case (Resolution pkg t ph)
    show ?thesis
    proof (cases ph)
      case AwaitingPrimary
      show ?thesis
      proof (cases r)
        case (Inl e)
        with True Resolution AwaitingPrimary show ?thesis by (auto simp: settle_def)
      next
        case (Inr m)
        with True Resolution AwaitingPrimary show ?thesis
          by (auto simp: settle_def nth_list_update)
      qed
    next
      case (AwaitingFallback e)
      with True Resolution show ?thesis
        by (cases r) (auto simp: settle_def nth_list_update)
    next
      case (Fulfilled v)
      with True Resolution show ?thesis by (simp add: settle_def)
    next
      case (Rejected e)
      with True Resolution show ?thesis by (simp add: settle_def)
    qed
  qed
qed

text \<open>Unless the caches are cleared, every resolution promise is the one its cache holds.\<close>

lemma resolution_promise_cached:
  assumes "Clear \<notin> set events"
  shows "p < length (promises (run_events events initial_resolver)) \<Longrightarrow>
         promises (run_events events initial_resolver) ! p = Resolution pkg t ph \<Longrightarrow>
         cache_of (run_events events initial_resolver) t pkg = Some p"
  using assms
proof (induction events arbitrary: p pkg t ph rule: rev_induct)
  case Nil
  then show ?case by simp
next
  case (snoc e events)
  let ?s = "run_events events initial_resolver"
  have nc: "Clear \<notin> set events" using snoc.prems(3) by simp
  note IH = snoc.IH [OF _ _ nc]
  show ?case
  proof (cases e)
    case (Resolve pkg' t')
    show ?thesis
    proof (cases "cache_of ?s t' pkg'")
      case None
      note view = resolve_miss_view [OF None]
      from snoc.prems(1) Resolve have bound: "p < Suc (Suc (length (promises ?s)))"
        by (simp add: view(1))
      consider "p < length (promises ?s)" | "p = length (promises ?s)" | "p = Suc (length (promises ?s))"
        using bound by linarith
      then show ?thesis
      proof cases
        case 1
        with snoc.prems(2) Resolve have "promises ?s ! p = Resolution pkg t ph"
          by (simp add: view(1) nth_append)
        from IH [OF 1 this] have old: "cache_of ?s t pkg = Some p" .
        have "\<not> (realm_of t = realm_of t' \<and> pkg = pkg')"
        proof
          assume "realm_of t = realm_of t' \<and> pkg = pkg'"
          then have "cache_of ?s t pkg = cache_of ?s t' pkg'"
            using cache_of_realm [of t t' ?s] by simp
          with old None show False by simp
        qed
        then show ?thesis using old Resolve by (auto simp: view(3))
      next
        case 2
        with snoc.prems(2) Resolve have "pkg = pkg'" "t = t'"
          by (simp_all add: view(1) nth_append)
        then show ?thesis using 2 Resolve by (simp add: view(3))
      next
        case 3
        with snoc.prems(2) Resolve show ?thesis by (simp add: view(1) nth_append)
      qed
    next
      case (Some c)
      note view = resolve_hit_view [OF Some]
      from snoc.prems(1) Resolve have bound: "p < Suc (length (promises ?s))"
        by (simp add: view(1))
      show ?thesis
      proof (cases "p < length (promises ?s)")
        case True
        with snoc.prems(2) Resolve have "promises ?s ! p = Resolution pkg t ph"
          by (simp add: view(1) nth_append)
        from IH [OF True this] show ?thesis using Resolve by (simp add: view(3))
      next
        case False
        with bound have "p = length (promises ?s)" by simp
        with snoc.prems(2) Resolve show ?thesis by (simp add: view(1) nth_append)
      qed
    qed
  next
    case (Settle q r)
    from snoc.prems(1) Settle have p: "p < length (promises ?s)" by simp
    from snoc.prems(2) Settle have "promises (settle q r ?s) ! p = Resolution pkg t ph" by simp
    from settle_resolution_before [OF p this] obtain ph0 where
      "promises ?s ! p = Resolution pkg t ph0" by blast
    from IH [OF p this] show ?thesis using Settle by simp
  next
    case Clear
    with snoc.prems(3) show ?thesis by simp
  qed
qed

text \<open>Unless the caches are cleared, the primary import of a package was started once
  in a realm if the realm's cache holds the package, and never otherwise.\<close>

lemma primary_fetch_count:
  assumes "Clear \<notin> set events"
  shows "fetch_count (run_events events initial_resolver) (realm_of t) (cdnUrl pkg) =
           (if cache_of (run_events events initial_resolver) t pkg = None then 0 else 1)"
  using assms
proof (induction events arbitrary: t pkg rule: rev_induct)
  case Nil
  then show ?case by simp
next
  case (snoc e events)
  let ?s = "run_events events initial_resolver"
  have nc: "Clear \<notin> set events" using snoc.prems by simp
  note IH = snoc.IH [OF nc]
  show ?case
  proof (cases e)
    case (Resolve pkg' t')
    let ?s' = "snd (resolvePackageFromCDN pkg' t' ?s)"
    show ?thesis
    proof (cases "cache_of ?s t' pkg'")
      case None
      note view = resolve_miss_view [OF None]
      have count: "fetch_count ?s' (realm_of t) (cdnUrl pkg) =
          fetch_count ?s (realm_of t) (cdnUrl pkg) +
            (if realm_of t' = realm_of t \<and> cdnUrl pkg' = cdnUrl pkg then 1 else 0)"
        using view(2) by (rule fetch_count_snoc)
      show ?thesis
      proof (cases "realm_of t' = realm_of t \<and> pkg' = pkg")
        case True
        then have "cache_of ?s t pkg = cache_of ?s t' pkg'"
          using cache_of_realm [of t t' ?s] by simp
        with None have "fetch_count ?s (realm_of t) (cdnUrl pkg) = 0" using IH [of t pkg] by simp
        moreover have "cache_of ?s' t pkg = Some (length (promises ?s))"
          using True view(3) [of t] by simp
        ultimately show ?thesis using True count Resolve by simp
      next
        case False
        then have "cache_of ?s' t pkg = cache_of ?s t pkg" using view(3) [of t] by auto
        moreover have "fetch_count ?s' (realm_of t) (cdnUrl pkg) =
            fetch_count ?s (realm_of t) (cdnUrl pkg)"
          using False count by auto
        ultimately show ?thesis using Resolve IH [of t pkg] by simp
      qed
    next
      case (Some c)
      note view = resolve_hit_view [OF Some]
      have "fetch_count ?s' (realm_of t) (cdnUrl pkg) = fetch_count ?s (realm_of t) (cdnUrl pkg)"
        using view(2) by (rule fetch_count_same)
      then show ?thesis using Resolve IH [of t pkg] by (simp add: view(3))
    qed
  next
    case (Settle q r)
    from settle_cases [of q r ?s] consider
        (same) "fetches (settle q r ?s) = fetches ?s"
      | (fallback) pkgq tq where "fetches (settle q r ?s) = fetches ?s @ [(tq, fallbackUrl pkgq)]"
      by blast
    then have "fetch_count (settle q r ?s) (realm_of t) (cdnUrl pkg) =
            fetch_count ?s (realm_of t) (cdnUrl pkg)"
    proof cases
      case same
      then show ?thesis by (rule fetch_count_same)
    next
      case fallback
      from fetch_count_snoc [OF this, of "realm_of t" "cdnUrl pkg"] show ?thesis by simp
    qed
    then show ?thesis using Settle IH [of t pkg] by simp
  next
    case Clear
    with snoc.prems show ?thesis by simp
  qed
qed

text \<open>Unless the caches are cleared, the fallback import of a package was started at most
  once in a realm, and not at all while the package is not cached or its promise still
  waits for the primary import.\<close>

lemma fallback_fetch_count:
  assumes "Clear \<notin> set events"
  shows "fetch_count (run_events events initial_resolver) (realm_of t) (fallbackUrl pkg) \<le> 1
       \<and> (cache_of (run_events events initial_resolver) t pkg = None \<longrightarrow>
            fetch_count (run_events events initial_resolver) (realm_of t) (fallbackUrl pkg) = 0)
       \<and> (\<forall>p t'. cache_of (run_events events initial_resolver) t pkg = Some p
              \<and> promises (run_events events initial_resolver) ! p = Resolution pkg t' AwaitingPrimary \<longrightarrow>
            fetch_count (run_events events initial_resolver) (realm_of t) (fallbackUrl pkg) = 0)"
  using assms
proof (induction events arbitrary: t pkg rule: rev_induct)
  case Nil
  then show ?case by simp
next
  case (snoc e events)
  let ?s = "run_events events initial_resolver"
  let ?n = "\<lambda>s. fetch_count s (realm_of t) (fallbackUrl pkg)"
  have nc: "Clear \<notin> set events" using snoc.prems by simp
  note IH = snoc.IH [OF nc, of t pkg]
  have bound: "\<And>p. cache_of ?s t pkg = Some p \<Longrightarrow> p < length (promises ?s)"
    using cached_promise_origin by blast
  show ?case
  proof (cases e)
    case (Resolve pkg' t')
    let ?s' = "snd (resolvePackageFromCDN pkg' t' ?s)"
    show ?thesis
    proof (cases "cache_of ?s t' pkg'")
      case None
      note view = resolve_miss_view [OF None]
      have count: "?n ?s' = ?n ?s"
        using fetch_count_snoc [OF view(2), of "realm_of t" "fallbackUrl pkg"] by simp
      show ?thesis
      proof (cases "realm_of t = realm_of t' \<and> pkg = pkg'")
        case True
        then have "cache_of ?s t pkg = cache_of ?s t' pkg'"
          using cache_of_realm [of t t' ?s] by simp
        with None IH have "?n ?s = 0" by simp
        with count show ?thesis using Resolve by simp
      next
        case False
        then have c: "cache_of ?s' t pkg = cache_of ?s t pkg" using view(3) [of t] by auto
        have "\<And>p t''. cache_of ?s t pkg = Some p \<Longrightarrow>
                 promises ?s' ! p = Resolution pkg t'' AwaitingPrimary \<Longrightarrow>
                 promises ?s ! p = Resolution pkg t'' AwaitingPrimary"
          using bound by (simp add: view(1) nth_append)
        with IH count c show ?thesis using Resolve by (simp; blast)
      qed
    next
      case (Some c)
      note view = resolve_hit_view [OF Some]
      have count: "?n ?s' = ?n ?s"
        using view(2) by (rule fetch_count_same)
      have "\<And>p t''. cache_of ?s t pkg = Some p \<Longrightarrow>
               promises ?s' ! p = Resolution pkg t'' AwaitingPrimary \<Longrightarrow>
               promises ?s ! p = Resolution pkg t'' AwaitingPrimary"
        using bound by (simp add: view(1) nth_append)
      with IH count show ?thesis using Resolve by (simp add: view(3); blast)
    qed
  next
    case (Settle q r)
    let ?s' = "settle q r ?s"
    from settle_cases [of q r ?s] consider
        (quiet) "fetches ?s' = fetches ?s"
          "\<forall>p pkg t. p < length (promises ?s) \<longrightarrow>
             promises ?s' ! p = Resolution pkg t AwaitingPrimary \<longrightarrow>
             promises ?s ! p = Resolution pkg t AwaitingPrimary"
      | (fallback) pkgq tq e where "q < length (promises ?s)"
          "promises ?s ! q = Resolution pkgq tq AwaitingPrimary"
          "promises ?s' = (promises ?s)[q := Resolution pkgq tq (AwaitingFallback e)]"
          "fetches ?s' = fetches ?s @ [(tq, fallbackUrl pkgq)]"
      by blast
    then show ?thesis
    proof cases
      case quiet
      have count: "?n ?s' = ?n ?s" using quiet(1) by (rule fetch_count_same)
      have "\<And>p t''. cache_of ?s t pkg = Some p \<Longrightarrow>
               promises ?s' ! p = Resolution pkg t'' AwaitingPrimary \<Longrightarrow>
               promises ?s ! p = Resolution pkg t'' AwaitingPrimary"
        using bound quiet(2) by blast
      with IH count show ?thesis using Settle by (simp; blast)
    next
      case fallback
      have cq: "cache_of ?s tq pkgq = Some q"
        using resolution_promise_cached [OF nc fallback(1,2)] .
      have count: "?n ?s' = ?n ?s + (if realm_of tq = realm_of t \<and> pkgq = pkg then 1 else 0)"
        using fetch_count_snoc [OF fallback(4), of "realm_of t" "fallbackUrl pkg"] by simp
      show ?thesis
      proof (cases "realm_of tq = realm_of t \<and> pkgq = pkg")
        case True
        then have ct: "cache_of ?s t pkg = Some q"
          using cq cache_of_realm [of tq t ?s] by simp
        with IH fallback(2) True have "?n ?s = 0" by blast
        with count True have one: "?n ?s' = 1" by simp
        have "promises ?s' ! q = Resolution pkgq tq (AwaitingFallback e)"
          using fallback(1,3) by simp
        with one ct show ?thesis using Settle by simp
      next
        case False
        with count have same: "?n ?s' = ?n ?s" by simp
        have "\<And>p t''. cache_of ?s t pkg = Some p \<Longrightarrow>
                 promises ?s' ! p = Resolution pkg t'' AwaitingPrimary \<Longrightarrow>
                 promises ?s ! p = Resolution pkg t'' AwaitingPrimary"
        proof -
          fix p t''
          assume c: "cache_of ?s t pkg = Some p"
            and a: "promises ?s' ! p = Resolution pkg t'' AwaitingPrimary"
          have "p \<noteq> q"
          proof
            assume "p = q"
            with a fallback(1,3) show False by simp
          qed
          with a fallback(3) show "promises ?s ! p = Resolution pkg t'' AwaitingPrimary" by simp
        qed
        with IH same show ?thesis using Settle by (simp; blast)
      qed
    qed
  next
    case Clear
    with snoc.prems show ?thesis by simp
  qed
qed

lemma run_events_append: "run_events (a @ b) s = run_events b (run_events a s)"
  by (simp add: run_events_def)

lemma resolve_returns:
  "length (promises s) \<le> fst (resolvePackageFromCDN pkg t s)
   \<and> fst (resolvePackageFromCDN pkg t s) < length (promises (snd (resolvePackageFromCDN pkg t s)))
   \<and> (\<exists>p. promises (snd (resolvePackageFromCDN pkg t s)) ! fst (resolvePackageFromCDN pkg t s) = Adopted p
          \<and> cache_of (snd (resolvePackageFromCDN pkg t s)) t pkg = Some p)"
proof (cases "cache_of s t pkg")
  case None
  have "fst (resolvePackageFromCDN pkg t s) = Suc (length (promises s))"
    by (simp add: resolve_miss [OF None])
  then show ?thesis
    using resolve_miss_view(1) [OF None] resolve_miss_view(3) [OF None, of t]
    by (simp add: nth_append)
next
  case (Some c)
  have "fst (resolvePackageFromCDN pkg t s) = length (promises s)"
    by (simp add: resolve_hit [OF Some])
  then show ?thesis
    using resolve_hit_view(1) [OF Some] resolve_hit_view(3) [OF Some, of t] Some
    by (simp add: nth_append)
qed

lemma apply_event_length: "length (promises s) \<le> length (promises (apply_event s e))"
proof (cases e)
  case (Resolve pkg t)
  then show ?thesis
    by (cases "cache_of s t pkg") (simp_all add: resolve_miss_view(1) resolve_hit_view(1))
qed simp_all

lemma apply_event_adopted:
  assumes "p < length (promises s)" and "promises s ! p = Adopted c"
  shows "promises (apply_event s e) ! p = Adopted c"
proof (cases e)
  case (Resolve pkg t)
  then show ?thesis using assms
    by (cases "cache_of s t pkg") (simp_all add: resolve_miss_view(1) resolve_hit_view(1) nth_append)
next
  case (Settle q r)
  then show ?thesis using settle_keeps_adopted [OF assms] by simp
next
  case Clear
  then show ?thesis using assms by simp
qed

lemma apply_event_cached:
  assumes "e \<noteq> Clear" and "cache_of s t pkg = Some p"
  shows "cache_of (apply_event s e) t pkg = Some p"
proof (cases e)
  case (Resolve pkg' t')
  show ?thesis
  proof (cases "cache_of s t' pkg'")
    case None
    have "\<not> (realm_of t = realm_of t' \<and> pkg = pkg')"
    proof
      assume "realm_of t = realm_of t' \<and> pkg = pkg'"
      then have "cache_of s t pkg = cache_of s t' pkg'" using cache_of_realm [of t t' s] by simp
      with None assms(2) show False by simp
    qed
    then show ?thesis using Resolve assms(2) resolve_miss_view(3) [OF None, of t] by auto
  next
    case (Some c)
    then show ?thesis using Resolve assms(2) by (simp add: resolve_hit_view(3))
  qed
next
  case (Settle q r)
  then show ?thesis using assms(2) by simp
next
  case Clear
  with assms(1) show ?thesis by simp
qed

lemma run_events_length: "length (promises s) \<le> length (promises (run_events events s))"
proof (induction events rule: rev_induct)
  case Nil
  then show ?case by simp
next
  case (snoc e events)
  then show ?case using apply_event_length [of "run_events events s" e] by simp
qed

lemma run_events_adopted:
  assumes "p < length (promises s)" and "promises s ! p = Adopted c"
  shows "promises (run_events events s) ! p = Adopted c"
proof (induction events rule: rev_induct)
  case Nil
  then show ?case using assms by simp
next
  case (snoc e events)
  have "p < length (promises (run_events events s))"
    using assms(1) run_events_length [of s events] by simp
  from apply_event_adopted [OF this snoc.IH] show ?case by simp
qed

lemma run_events_cached:
  assumes "Clear \<notin> set events" and "cache_of s t pkg = Some p"
  shows "cache_of (run_events events s) t pkg = Some p"
  using assms(1)
proof (induction events rule: rev_induct)
  case Nil
  then show ?case using assms(2) by simp
next
  case (snoc e events)
  then have "e \<noteq> Clear" and "cache_of (run_events events s) t pkg = Some p" by auto
  from apply_event_cached [OF this] show ?case by simp
qed

lemma str_includes_prefix: "str_includes (ys @ zs) ys"
proof (cases "ys @ zs")
  case Nil
  then show ?thesis by simp
next
  case (Cons c cs)
  have "starts_with ys (ys @ zs)" by (simp add: starts_with_def)
  then show ?thesis unfolding Cons by simp
qed

lemma str_includes_middle: "str_includes (xs @ ys @ zs) ys"
proof (induction xs)
  case Nil
  then show ?case by (simp add: str_includes_prefix)
next
  case (Cons x xs)
  then show ?case by simp
qed

lemma composite_names_both:
  "str_includes (composite_message pkg e1 e2) (error_text e1)
   \<and> str_includes (composite_message pkg e1 e2) (error_text e2)
   \<and> str_includes (composite_message pkg e1 e2) pkg"
proof -
  have a: "composite_message pkg e1 e2 =
      (''Failed to resolve '' @ pkg @ '' from CDN. Primary error: '') @ error_text e1 @
      (''. Fallback error: '' @ error_text e2)"
    by (simp add: composite_message_def)
  have b: "composite_message pkg e1 e2 =
      (''Failed to resolve '' @ pkg @ '' from CDN. Primary error: '' @ error_text e1 @
       ''. Fallback error: '') @ error_text e2 @ []"
    by (simp add: composite_message_def)
  have c: "composite_message pkg e1 e2 =
      ''Failed to resolve '' @ pkg @ ('' from CDN. Primary error: '' @ error_text e1 @
       ''. Fallback error: '' @ error_text e2)"
    by (simp add: composite_message_def)
  show ?thesis
    using str_includes_middle [of "''Failed to resolve '' @ pkg @ '' from CDN. Primary error: ''"
        "error_text e1" "''. Fallback error: '' @ error_text e2"]
      str_includes_middle [of "''Failed to resolve '' @ pkg @ '' from CDN. Primary error: '' @ error_text e1 @
       ''. Fallback error: ''" "error_text e2" "[]"]
      str_includes_middle [of "''Failed to resolve ''" pkg "'' from CDN. Primary error: '' @ error_text e1 @
       ''. Fallback error: '' @ error_text e2"]
    unfolding a [symmetric] b [symmetric] c [symmetric] by blast
qed

lemma merge_results_null:
  "\<forall>res \<in> set results. snd res = JNull \<Longrightarrow> merge_results deps results = deps"
  unfolding merge_results_def by (induction results arbitrary: deps) auto

lemma resolveDependencies_all_rejected:
  assumes "\<forall>q \<in> set requests. \<exists>e. awaited r (snd q) = Some (Inl e)"
  shows "resolveDependencies cfg requests r st =
           Some (st\<lparr>resolvedDependencies := dependencies cfg, isLoading := False\<rparr>)"
proof -
  have settled: "\<forall>q \<in> set requests. awaited r (snd q) \<noteq> None" using assms by auto
  have "\<forall>res \<in> set (map (\<lambda>q. (fst q, case awaited r (snd q) of
                                           None \<Rightarrow> JNull
                                         | Some res \<Rightarrow> resolved_or_null res)) requests).
          snd res = JNull"
    using assms by (auto simp: resolved_or_null_def)
  from merge_results_null [OF this] settled show ?thesis
    by (simp add: resolveDependencies_def)
qed

lemma caches_disjoint:
  assumes "realm_of t1 \<noteq> realm_of t2"
  shows "ran (cache_of (run_events events initial_resolver) t1)
           \<inter> ran (cache_of (run_events events initial_resolver) t2) = {}"
proof -
  let ?s = "run_events events initial_resolver"
  have "False" if a: "cache_of ?s t1 pkg1 = Some p" and b: "cache_of ?s t2 pkg2 = Some p"
    for p pkg1 pkg2
  proof -
    from cached_promise_origin [OF a] obtain ta pha where
      "promises ?s ! p = Resolution pkg1 ta pha" "realm_of ta = realm_of t1" by blast
    moreover from cached_promise_origin [OF b] obtain tb phb where
      "promises ?s ! p = Resolution pkg2 tb phb" "realm_of tb = realm_of t2" by blast
    ultimately show False using assms by simp
  qed
  then show ?thesis by (auto simp: ran_def)
qed

text \<open>
  C4. After any sequence of requests, settled imports and cache clearings, the
  caches of two distinct realms (the host and a sandbox window, or two sandbox
  windows) hold no promise in common; and a request against one realm returns a
  promise that adopts a resolution promise made for that realm, which the cache of
  the other realm holds neither before nor after the request.
\<close>

theorem realm_caches_disjoint:
  assumes "realm_of t1 \<noteq> realm_of t2"
  shows "ran (cache_of (run_events events initial_resolver) t1)
           \<inter> ran (cache_of (run_events events initial_resolver) t2) = {}
       \<and> (\<exists>p t ph.
             promises (snd (resolvePackageFromCDN pkg t2 (run_events events initial_resolver)))
               ! fst (resolvePackageFromCDN pkg t2 (run_events events initial_resolver)) = Adopted p
           \<and> promises (snd (resolvePackageFromCDN pkg t2 (run_events events initial_resolver))) ! p
               = Resolution pkg t ph
           \<and> realm_of t = realm_of t2
           \<and> p \<notin> ran (cache_of (run_events events initial_resolver) t1)
           \<and> p \<notin> ran (cache_of (snd (resolvePackageFromCDN pkg t2
                                          (run_events events initial_resolver))) t1))"
proof -
  let ?s = "run_events events initial_resolver"
  let ?s' = "snd (resolvePackageFromCDN pkg t2 ?s)"
  have s': "?s' = run_events (events @ [Resolve pkg t2]) initial_resolver" by simp
  from resolve_returns [of ?s pkg t2] obtain p where
    p: "promises ?s' ! fst (resolvePackageFromCDN pkg t2 ?s) = Adopted p"
       "cache_of ?s' t2 pkg = Some p" by blast
  from cached_promise_origin [of "events @ [Resolve pkg t2]" t2 pkg p] p(2) obtain t ph where
    origin: "promises ?s' ! p = Resolution pkg t ph" "realm_of t = realm_of t2"
    unfolding s' by blast
  have d': "ran (cache_of ?s' t1) \<inter> ran (cache_of ?s' t2) = {}"
    unfolding s' using assms by (rule caches_disjoint)
  have "p \<in> ran (cache_of ?s' t2)" using p(2) by (auto simp: ran_def)
  with d' have n': "p \<notin> ran (cache_of ?s' t1)" by blast
  have n: "p \<notin> ran (cache_of ?s t1)"
  proof
    assume "p \<in> ran (cache_of ?s t1)"
    then obtain pkg' where "cache_of ?s t1 pkg' = Some p" by (auto simp: ran_def)
    then have "cache_of (apply_event ?s (Resolve pkg t2)) t1 pkg' = Some p"
      by (intro apply_event_cached) simp_all
    then have "p \<in> ran (cache_of ?s' t1)" by (auto simp: ran_def)
    with n' show False by simp
  qed
  show ?thesis
    using caches_disjoint [OF assms, of events] p(1) origin n n' by blast
qed

lemma sandbox_realm_differs: "realm_of None \<noteq> realm_of (Some 1)"
  by (simp add: realm_of_def is_host_def host_window_def)

theorem realm_caches_disjoint_witness:
  "ran (cache_of (run_events [Resolve ''left-pad'' None] initial_resolver) None)
     \<inter> ran (cache_of (run_events [Resolve ''left-pad'' None] initial_resolver) (Some 1)) = {}
   \<and> cache_of (run_events [Resolve ''left-pad'' None] initial_resolver) None ''left-pad'' = Some 0
   \<and> cache_of (snd (resolvePackageFromCDN ''left-pad'' (Some 1)
                      (run_events [Resolve ''left-pad'' None] initial_resolver)))
        (Some 1) ''left-pad'' = Some 2"
proof -
  have a: "cache_of (run_events [Resolve ''left-pad'' None] initial_resolver) None ''left-pad'' = Some 0"
    by code_simp
  have b: "cache_of (snd (resolvePackageFromCDN ''left-pad'' (Some 1)
                      (run_events [Resolve ''left-pad'' None] initial_resolver)))
        (Some 1) ''left-pad'' = Some 2"
    by code_simp
  from realm_caches_disjoint [OF sandbox_realm_differs, of "[Resolve ''left-pad'' None]" "''left-pad''"]
  show ?thesis using a b by blast
qed

text \<open>
  C3, amended. As long as the caches are not cleared: two requests for the same
  package in the same realm return two distinct promise objects (the function is
  \<open>async\<close>), both of which adopt the one promise that the realm's cache holds for
  the package; the second request starts no import; and for the package in that
  realm the primary import was started exactly once and the fallback import at
  most once, however many requests and settled imports lie between.
\<close>

theorem requests_coalesce:
  assumes "Clear \<notin> set events" and "Clear \<notin> set later" and "realm_of t' = realm_of t"
  shows "let s = run_events events initial_resolver;
             first = resolvePackageFromCDN pkg t s;
             s2 = run_events later (snd first);
             second = resolvePackageFromCDN pkg t' s2
         in fst first \<noteq> fst second
          \<and> (\<exists>p. promises (snd second) ! fst first = Adopted p
                \<and> promises (snd second) ! fst second = Adopted p
                \<and> cache_of (snd second) t pkg = Some p)
          \<and> fetches (snd second) = fetches s2
          \<and> fetch_count (snd second) (realm_of t) (cdnUrl pkg) = 1
          \<and> fetch_count (snd second) (realm_of t) (fallbackUrl pkg) \<le> 1"
proof -
  let ?s = "run_events events initial_resolver"
  let ?first = "resolvePackageFromCDN pkg t ?s"
  let ?s2 = "run_events later (snd ?first)"
  let ?second = "resolvePackageFromCDN pkg t' ?s2"
  from resolve_returns [of ?s pkg t] obtain p where
    i1: "fst ?first < length (promises (snd ?first))"
    and a1: "promises (snd ?first) ! fst ?first = Adopted p"
    and c1: "cache_of (snd ?first) t pkg = Some p" by blast
  have c2: "cache_of ?s2 t pkg = Some p" using assms(2) c1 by (rule run_events_cached)
  have a2: "promises ?s2 ! fst ?first = Adopted p" using i1 a1 by (rule run_events_adopted)
  have l2: "fst ?first < length (promises ?s2)"
    using i1 run_events_length [of "snd ?first" later] by simp
  have hit: "cache_of ?s2 t' pkg = Some p"
    using c2 cache_of_realm [OF assms(3), of ?s2] by simp
  note view = resolve_hit_view [OF hit]
  have idx: "fst ?second = length (promises ?s2)" by (simp add: resolve_hit [OF hit])
  have distinct: "fst ?first \<noteq> fst ?second" using l2 idx by simp
  have ad1: "promises (snd ?second) ! fst ?first = Adopted p"
    using a2 l2 by (simp add: view(1) nth_append)
  have ad2: "promises (snd ?second) ! fst ?second = Adopted p"
    by (simp add: view(1) idx)
  have c3: "cache_of (snd ?second) t pkg = Some p" using c2 by (simp add: view(3))
  have all: "snd ?second = run_events (events @ Resolve pkg t # later @ [Resolve pkg t']) initial_resolver"
    by (simp add: run_events_def)
  have nc: "Clear \<notin> set (events @ Resolve pkg t # later @ [Resolve pkg t'])"
    using assms(1,2) by simp
  have n1: "fetch_count (snd ?second) (realm_of t) (cdnUrl pkg) = 1"
    using primary_fetch_count [OF nc, of t pkg] c3 unfolding all [symmetric] by simp
  have n2: "fetch_count (snd ?second) (realm_of t) (fallbackUrl pkg) \<le> 1"
    using fallback_fetch_count [OF nc, of t pkg] unfolding all [symmetric] by simp
  show ?thesis
    unfolding Let_def using distinct ad1 ad2 c3 view(2) n1 n2 by blast
qed

theorem requests_coalesce_witness:
  "let s = run_events [] initial_resolver;
       first = resolvePackageFromCDN ''left-pad'' None s;
       s2 = run_events [Settle 0 (Inl primary_failure)] (snd first);
       second = resolvePackageFromCDN ''left-pad'' (Some host_window) s2
   in fst first \<noteq> fst second
    \<and> (\<exists>p. promises (snd second) ! fst first = Adopted p
          \<and> promises (snd second) ! fst second = Adopted p
          \<and> cache_of (snd second) None ''left-pad'' = Some p)
    \<and> fetches (snd second) = fetches s2
    \<and> fetch_count (snd second) (realm_of None) (cdnUrl ''left-pad'') = 1
    \<and> fetch_count (snd second) (realm_of None) (fallbackUrl ''left-pad'') \<le> 1"
  by (rule requests_coalesce) (simp_all add: realm_of_def is_host_def)

theorem distinct_promises_counterexample:
  "fst (resolvePackageFromCDN ''left-pad'' None initial_resolver) = 1
   \<and> fst (resolvePackageFromCDN ''left-pad'' None
            (snd (resolvePackageFromCDN ''left-pad'' None initial_resolver))) = 2
   \<and> promises (snd (resolvePackageFromCDN ''left-pad'' None
                      (snd (resolvePackageFromCDN ''left-pad'' None initial_resolver)))) =
       [Resolution ''left-pad'' None AwaitingPrimary, Adopted 0, Adopted 0]"
  by code_simp

lemma settle_primary_failure:
  assumes "p < length (promises s)" and "promises s ! p = Resolution pkg t AwaitingPrimary"
  shows "settle p (Inl e1) s =
           s\<lparr>promises := (promises s)[p := Resolution pkg t (AwaitingFallback e1)],
             fetches := fetches s @ [(t, fallbackUrl pkg)]\<rparr>"
  using assms by (simp add: settle_def)

lemma settle_fallback_failure:
  assumes "p < length (promises s)" and "promises s ! p = Resolution pkg t (AwaitingFallback e1)"
  shows "settle p (Inl e2) s =
           s\<lparr>promises := (promises s)[p := Resolution pkg t
                 (Rejected (Error (composite_message pkg e1 e2)))]\<rparr>"
  using assms by (simp add: settle_def)

lemma settle_rejected:
  assumes "p < length (promises s)" and "promises s ! p = Resolution pkg t (Rejected e)"
  shows "settle p r s = s"
  using assms by (simp add: settle_def)

text \<open>
  C6, amended. When the primary import of a pending resolution fails, exactly one
  import from the fallback registry is started, with a URL that differs from the
  primary one; when that fails too, no further import is started and the promise
  is rejected, for good, with an error whose message contains both failures'
  messages. \<open>CodeExecutor\<close> catches that rejection: the request counts as \<open>null\<close>
  and the dependency is left out of the resolved dependencies, so the error does
  not reach \<open>executeCode\<close> or its result.
\<close>

theorem fallback_once_then_composite:
  assumes "Clear \<notin> set events"
    and "p < length (promises (run_events events initial_resolver))"
    and "promises (run_events events initial_resolver) ! p = Resolution pkg t AwaitingPrimary"
  shows "let s = run_events events initial_resolver;
             s1 = settle p (Inl e1) s;
             s2 = settle p (Inl e2) s1
         in fetch_count s (realm_of t) (fallbackUrl pkg) = 0
          \<and> fetches s1 = fetches s @ [(t, fallbackUrl pkg)]
          \<and> fallbackUrl pkg \<noteq> cdnUrl pkg
          \<and> fetch_count s1 (realm_of t) (fallbackUrl pkg) = 1
          \<and> fetches s2 = fetches s1
          \<and> resolution_result s2 p = Some (Inl (Error (composite_message pkg e1 e2)))
          \<and> str_includes (composite_message pkg e1 e2) (error_text e1)
          \<and> str_includes (composite_message pkg e1 e2) (error_text e2)
          \<and> (\<forall>r. settle p r s2 = s2)
          \<and> (\<forall>q dep cfg st. q < length (promises s2) \<and> promises s2 ! q = Adopted p \<longrightarrow>
                awaited s2 q = Some (Inl (Error (composite_message pkg e1 e2)))
                \<and> resolveDependencies cfg [(dep, q)] s2 st =
                    Some (st\<lparr>resolvedDependencies := dependencies cfg, isLoading := False\<rparr>))"
proof -
  let ?s = "run_events events initial_resolver"
  let ?s1 = "settle p (Inl e1) ?s"
  let ?s2 = "settle p (Inl e2) ?s1"
  have cached: "cache_of ?s t pkg = Some p"
    using resolution_promise_cached [OF assms] .
  have n0: "fetch_count ?s (realm_of t) (fallbackUrl pkg) = 0"
    using fallback_fetch_count [OF assms(1), of t pkg] cached assms(3) by blast
  have s1: "?s1 = ?s\<lparr>promises := (promises ?s)[p := Resolution pkg t (AwaitingFallback e1)],
                      fetches := fetches ?s @ [(t, fallbackUrl pkg)]\<rparr>"
    using assms(2,3) by (rule settle_primary_failure)
  have f1: "fetches ?s1 = fetches ?s @ [(t, fallbackUrl pkg)]" by (simp add: s1)
  have n1: "fetch_count ?s1 (realm_of t) (fallbackUrl pkg) = 1"
    using fetch_count_snoc [OF f1, of "realm_of t" "fallbackUrl pkg"] n0 by simp
  have p1: "p < length (promises ?s1)" using assms(2) by simp
  have a1: "promises ?s1 ! p = Resolution pkg t (AwaitingFallback e1)"
    using assms(2) by (simp add: s1)
  have s2: "?s2 = ?s1\<lparr>promises := (promises ?s1)[p := Resolution pkg t
                 (Rejected (Error (composite_message pkg e1 e2)))]\<rparr>"
    using p1 a1 by (rule settle_fallback_failure)
  have f2: "fetches ?s2 = fetches ?s1" by (subst s2) simp
  have p2: "p < length (promises ?s2)" using p1 by simp
  have a2: "promises ?s2 ! p = Resolution pkg t (Rejected (Error (composite_message pkg e1 e2)))"
    using p1 by (subst s2) simp
  have res: "resolution_result ?s2 p = Some (Inl (Error (composite_message pkg e1 e2)))"
    using p2 a2 by (simp add: resolution_result_def phase_result_def)
  have final: "\<forall>r. settle p r ?s2 = ?s2"
    using settle_rejected [OF p2 a2] by blast
  have dropped: "\<forall>q dep cfg st. q < length (promises ?s2) \<and> promises ?s2 ! q = Adopted p \<longrightarrow>
                awaited ?s2 q = Some (Inl (Error (composite_message pkg e1 e2)))
                \<and> resolveDependencies cfg [(dep, q)] ?s2 st =
                    Some (st\<lparr>resolvedDependencies := dependencies cfg, isLoading := False\<rparr>)"
  proof (intro allI impI)
    fix q :: promise_id and dep :: string and cfg :: config and st :: executor
    assume q: "q < length (promises ?s2) \<and> promises ?s2 ! q = Adopted p"
    then have aw: "awaited ?s2 q = Some (Inl (Error (composite_message pkg e1 e2)))"
      using res by (simp add: awaited_def)
    then have "\<forall>x \<in> set [(dep, q)]. \<exists>e. awaited ?s2 (snd x) = Some (Inl e)" by simp
    from resolveDependencies_all_rejected [OF this] aw
    show "awaited ?s2 q = Some (Inl (Error (composite_message pkg e1 e2)))
        \<and> resolveDependencies cfg [(dep, q)] ?s2 st =
            Some (st\<lparr>resolvedDependencies := dependencies cfg, isLoading := False\<rparr>)"
      by simp
  qed
  show ?thesis
    unfolding Let_def
    using n0 f1 n1 f2 res composite_names_both [of pkg e1 e2] final dropped
    by (simp add: cdnUrl_not_fallbackUrl)
qed

lemma leftpad_pending:
  "Clear \<notin> set [Resolve ''left-pad'' None]
   \<and> 0 < length (promises (run_events [Resolve ''left-pad'' None] initial_resolver))
   \<and> promises (run_events [Resolve ''left-pad'' None] initial_resolver) ! 0 =
       Resolution ''left-pad'' None AwaitingPrimary"
  by code_simp

theorem fallback_once_then_composite_witness:
  "let s = run_events [Resolve ''left-pad'' None] initial_resolver;
       s1 = settle 0 (Inl primary_failure) s;
       s2 = settle 0 (Inl fallback_failure) s1
   in fetches s1 = fetches s @ [(None, fallbackUrl ''left-pad'')]
    \<and> fetch_count s1 (realm_of None) (fallbackUrl ''left-pad'') = 1
    \<and> fetches s2 = fetches s1
    \<and> resolution_result s2 0 =
        Some (Inl (Error (composite_message ''left-pad'' primary_failure fallback_failure)))"
  using fallback_once_then_composite [of "[Resolve ''left-pad'' None]" 0 "''left-pad''" None
      primary_failure fallback_failure] leftpad_pending
  by (simp add: Let_def)

theorem composite_error_not_reported_counterexample:
  "fst requested = [(''left-pad'', 1)]
   \<and> fetches failed_resolver = [(None, cdnUrl ''left-pad''), (None, fallbackUrl ''left-pad'')]
   \<and> awaited failed_resolver 1 =
       Some (Inl (Error (composite_message ''left-pad'' primary_failure fallback_failure)))
   \<and> (case resolveDependencies auto_config (fst requested) failed_resolver (fst (snd requested)) of
         None \<Rightarrow> False
       | Some st \<Rightarrow>
           resolvedDependencies st = []
           \<and> (case execution_effect sample_platform sample_engine auto_config st of
                 Returns st' \<Rightarrow>
                   executionResult st' =
                     \<lparr> Component = ErrorComponent (Error ''left_pad is not defined''),
                       error = None, forbiddenPatterns = False \<rparr>
                   \<and> onError_calls st' = []
               | Throws e \<Rightarrow> False
               | Diverges \<Rightarrow> False))"
  by code_simp

end
